theory Spec2Isabelle
  imports Main
begin

text \<open>
  A model of the deployment progress tracking of the dashboard: the project context
  (\<^verbatim>\<open>ProjectProvider\<close> with \<^verbatim>\<open>getProjectById\<close>, \<^verbatim>\<open>fetchProjects\<close>,
  \<^verbatim>\<open>updateProjectStatus\<close>, \<^verbatim>\<open>deleteProject\<close>), the log poller of
  \<^verbatim>\<open>LogViewer.jsx\<close> and the status poller of \<^verbatim>\<open>DeploymentModal\<close>. An asynchronous
  function is split at its \<^verbatim>\<open>await\<close>s: one definition for the part that runs when
  it is called, one for each continuation, which takes what the request settled with.
  React state is a record; \<^verbatim>\<open>setState\<close> is a record update.
\<close>

section \<open>JavaScript values used by the dashboard\<close>

text \<open>
  \<^verbatim>\<open>a || d\<close> on an optional string: the left operand is taken when it is truthy, that is
  defined and not the empty string; otherwise the right one.
\<close>

fun truthy :: "string option \<Rightarrow> bool" where
  "truthy None = False"
| "truthy (Some s) = (s \<noteq> [])"

fun or_default :: "string option \<Rightarrow> string \<Rightarrow> string" where
  "or_default None d = d"
| "or_default (Some s) d = (if s = [] then d else s)"

text \<open>
  \<^verbatim>\<open>String.prototype.toLowerCase\<close>, on the bytes of the string: the letters A to Z are
  mapped to a to z and every other byte is kept. The two needles searched for below
  consist of ASCII letters and a blank, and no character outside ASCII lowers to one of
  their letters, so the bytes of other characters do not take part in a match.
\<close>

definition lower_char :: "char \<Rightarrow> char" where
  "lower_char c =
     (let n = (of_char c :: nat) in if 65 \<le> n \<and> n \<le> 90 then char_of (n + 32) else c)"

definition toLowerCase :: "string \<Rightarrow> string" where
  "toLowerCase s = map lower_char s"

text \<open>\<^verbatim>\<open>s.startsWith(t)\<close> and \<^verbatim>\<open>s.includes(t)\<close>.\<close>

fun startsWith :: "string \<Rightarrow> string \<Rightarrow> bool" where
  "startsWith s [] = True"
| "startsWith [] (b # t) = False"
| "startsWith (a # s) (b # t) = (a = b \<and> startsWith s t)"

fun str_includes :: "string \<Rightarrow> string \<Rightarrow> bool" where
  "str_includes [] t = (t = [])"
| "str_includes (a # s) t = (startsWith (a # s) t \<or> str_includes s t)"

section \<open>Responses of the HTTP API\<close>

text \<open>
  Every response body is \<^verbatim>\<open>{status, message?, data}\<close>. A request settles with a
  response or fails with an error, whose message is kept. A request that was given a
  cancel token can also be cancelled.
\<close>

datatype 'a http =
    Response string "string option" 'a
  | Failed string


datatype request =
    GET_project string
  | GET_projects
  | DELETE_project string
  | POST_deploy "string option"
  | GET_status "string option"
  | GET_logs "string option"

section \<open>Log entries and terminal detection\<close>

record log_entry =
  timestamp :: string
  level :: "string option"
  message :: "string option"
  log :: "string option"

text \<open>
  LogViewer.jsx, \<^verbatim>\<open>fetchLogs\<close>:
  \<^verbatim>\<open>const message = (log.message || log.log || "").toLowerCase();\<close>
\<close>

definition entry_text :: "log_entry \<Rightarrow> string" where
  "entry_text l = or_default (message l) (or_default (log l) [])"

definition isDone :: "log_entry list \<Rightarrow> bool" where
  "isDone newLogs =
     list_ex (\<lambda>l. let m = toLowerCase (entry_text l)
                  in str_includes m ''done'' \<or> str_includes m ''completed successfully'') newLogs"

text \<open>
  DeploymentModal, \<^verbatim>\<open>fetchDeploymentStatus\<close>:
  \<^verbatim>\<open>log.message?.toLowerCase().includes("done") || log.log?.toLowerCase().includes("done")\<close>
\<close>

fun opt_includes_done :: "string option \<Rightarrow> bool" where
  "opt_includes_done None = False"
| "opt_includes_done (Some m) = str_includes (toLowerCase m) ''done''"

definition hasDoneLog :: "log_entry list \<Rightarrow> bool" where
  "hasDoneLog newLogs =
     list_ex (\<lambda>l. opt_includes_done (message l) \<or> opt_includes_done (log l)) newLogs"

section \<open>The project context\<close>

record deployment =
  dep_id :: "string option"
  dep_status :: "string option"
  createdAt :: "string option"
  updatedAt :: "string option"

record project =
  proj_id :: string
  proj_name :: string
  deployments :: "deployment list option"

text \<open>
  The state held by \<^verbatim>\<open>ProjectProvider\<close>: the three \<^verbatim>\<open>useState\<close> cells, the ledger
  \<^verbatim>\<open>loadingRef.current\<close> (project id to the promise stored for it), the promises
  created so far, and the requests sent to the server, in order.
\<close>

datatype promise_state =
    Pending
  | Fulfilled project
  | Rejected string
  | RejectedCancel

record ctx =
  projects :: "project list"
  isLoading :: bool
  error :: "string option"
  loadingRef :: "string \<rightharpoonup> nat"
  promises :: "promise_state list"
  requests :: "request list"

subsection \<open>fetchProjects\<close>

text \<open>
  The synchronous part up to the first \<^verbatim>\<open>await\<close>. With no token the function returns
  the empty list at once; otherwise the request is sent and the call is suspended
  (\<open>None\<close>).
\<close>

definition fetchProjects_start :: "string option \<Rightarrow> ctx \<Rightarrow> project list option \<times> ctx" where
  "fetchProjects_start token s =
     (if \<not> truthy token then (Some [], s)
      else (None, s\<lparr>isLoading := True, requests := requests s @ [GET_projects]\<rparr>))"

text \<open>The continuation once the request has settled: \<open>Inl\<close> is the error thrown.\<close>

fun fetchProjects_settle :: "project list http \<Rightarrow> ctx \<Rightarrow> (string + project list) \<times> ctx" where
  "fetchProjects_settle (Response st msg ps) s =
     (if st \<noteq> ''success''
      then (let m = or_default msg ''Failed to fetch projects''
            in (Inl m, s\<lparr>error := Some m, isLoading := False\<rparr>))
      else (Inr ps, s\<lparr>projects := ps, isLoading := False\<rparr>))"
| "fetchProjects_settle (Failed m) s = (Inl m, s\<lparr>error := Some m, isLoading := False\<rparr>)"

subsection \<open>updateProjectStatus\<close>

text \<open>
  \<^verbatim>\<open>project.deployments ? [{...project.deployments[0], status}, ...project.deployments.slice(1)]
                           : [{status}]\<close>
  Spreading \<^verbatim>\<open>undefined\<close> (the first element of an empty array) gives no fields.
\<close>

definition only_status :: "string \<Rightarrow> deployment" where
  "only_status st = \<lparr>dep_id = None, dep_status = Some st, createdAt = None, updatedAt = None\<rparr>"

fun set_latest_status :: "string \<Rightarrow> deployment list option \<Rightarrow> deployment list" where
  "set_latest_status st None = [only_status st]"
| "set_latest_status st (Some []) = [only_status st]"
| "set_latest_status st (Some (d # ds)) = d\<lparr>dep_status := Some st\<rparr> # ds"

definition updateProjectStatus :: "string \<Rightarrow> string \<Rightarrow> ctx \<Rightarrow> bool \<times> ctx" where
  "updateProjectStatus projectId st s =
     (True, s\<lparr>projects :=
        map (\<lambda>p. if proj_id p = projectId
                 then p\<lparr>deployments := Some (set_latest_status st (deployments p))\<rparr>
                 else p) (projects s)\<rparr>)"

subsection \<open>deleteProject\<close>

definition deleteProject_start :: "string \<Rightarrow> ctx \<Rightarrow> ctx" where
  "deleteProject_start projectId s =
     s\<lparr>isLoading := True, requests := requests s @ [DELETE_project projectId]\<rparr>"

definition deleteProject_catch :: "string \<Rightarrow> ctx \<Rightarrow> (string + bool) \<times> ctx" where
  "deleteProject_catch m s =
     (Inl m, s\<lparr>error := Some (or_default (Some m) ''Failed to delete project''),
               isLoading := False\<rparr>)"

fun deleteProject_settle :: "string \<Rightarrow> unit http \<Rightarrow> ctx \<Rightarrow> (string + bool) \<times> ctx" where
  "deleteProject_settle projectId (Response st msg u) s =
     (if st \<noteq> ''success''
      then deleteProject_catch (or_default msg ''Failed to delete project'') s
      else (Inr True,
            s\<lparr>projects := filter (\<lambda>p. proj_id p \<noteq> projectId) (projects s),
              loadingRef := (loadingRef s)(projectId := None),
              isLoading := False\<rparr>))"
| "deleteProject_settle projectId (Failed m) s = deleteProject_catch m s"

definition deleteProject :: "string \<Rightarrow> unit http \<Rightarrow> ctx \<Rightarrow> (string + bool) \<times> ctx" where
  "deleteProject projectId out s = deleteProject_settle projectId out (deleteProject_start projectId s)"

fun is_success :: "'a http \<Rightarrow> bool" where
  "is_success (Response st msg d) = (st = ''success'')"
| "is_success (Failed m) = False"

subsection \<open>getProjectById\<close>

text \<open>
  The ledger \<^verbatim>\<open>loadingRef.current\<close> is a plain object (\<^verbatim>\<open>useRef({})\<close>): reading
  \<^verbatim>\<open>loadingRef.current[projectId]\<close> gives the promise stored under the id or, for an
  id that names a property of \<^verbatim>\<open>Object.prototype\<close>, the inherited value, which is
  truthy. The map \<open>loadingRef\<close> holds the stored promises.
\<close>

definition prototype_keys :: "string list" where
  "prototype_keys =
     [''constructor'', ''__proto__'', ''hasOwnProperty'', ''isPrototypeOf'',
      ''propertyIsEnumerable'', ''toLocaleString'', ''toString'', ''valueOf'',
      ''__defineGetter__'', ''__defineSetter__'', ''__lookupGetter__'', ''__lookupSetter__'']"

text \<open>
  A call runs synchronously up to its first \<^verbatim>\<open>await\<close>. If the ledger holds a promise
  for the id, the call returns that promise (\<open>Joined\<close>); if the lookup gives an
  inherited value, the call returns that value (\<open>Inherited\<close>). Otherwise it creates
  the promise, stores it in the ledger and awaits it inside its own
  \<^verbatim>\<open>try/catch/finally\<close> (\<open>Owner\<close>); the body of the promise looks the project up in
  \<^verbatim>\<open>projects\<close> and only sends the request when it is not there. The list searched
  is the one captured by the function instance that is called (\<^verbatim>\<open>useCallback\<close> with
  \<^verbatim>\<open>[projects]\<close>): the list of the render the instance was created in, here the
  argument \<open>captured\<close>. The cancel function pushed on \<^verbatim>\<open>window.axiosCancelTokens\<close>
  shows in the model as the outcome \<open>Cancelled\<close> of the request.
\<close>

datatype caller = Owner nat | Joined nat | Inherited


definition getProjectById_call :: "project list \<Rightarrow> string \<Rightarrow> ctx \<Rightarrow> caller \<times> ctx" where
  "getProjectById_call captured projectId s =
     (case loadingRef s projectId of
        Some k \<Rightarrow> (Joined k, s)
      | None \<Rightarrow>
         if projectId \<in> set prototype_keys then (Inherited, s)
         else
         (let k = length (promises s) in
          case find (\<lambda>p. proj_id p = projectId) captured of
            Some cachedProject \<Rightarrow>
              (Owner k, s\<lparr>isLoading := True,
                          promises := promises s @ [Fulfilled cachedProject],
                          loadingRef := (loadingRef s)(projectId \<mapsto> k)\<rparr>)
          | None \<Rightarrow>
              (Owner k, s\<lparr>isLoading := True,
                          promises := promises s @ [Pending],
                          loadingRef := (loadingRef s)(projectId \<mapsto> k),
                          requests := requests s @ [GET_project projectId]\<rparr>)))"


definition getProjectById_finally :: "string \<Rightarrow> ctx \<Rightarrow> ctx" where
  "getProjectById_finally projectId s =
     s\<lparr>isLoading := False, loadingRef := (loadingRef s)(projectId := None)\<rparr>"



text \<open>
  The owner of a promise that was fulfilled from the cached list resumes: only its
  \<^verbatim>\<open>finally\<close> runs.
\<close>

definition getProjectById_resume :: "string \<Rightarrow> ctx \<Rightarrow> ctx" where
  "getProjectById_resume projectId s = getProjectById_finally projectId s"







section \<open>Timers and effects of the polling components\<close>

text \<open>
  The page's live interval timers are a list of handles with what was registered for
  them. \<^verbatim>\<open>clearInterval(h)\<close> removes the handle; a timer that is not in the list never
  fires again.
\<close>

definition clearInterval :: "nat \<Rightarrow> (nat \<times> 'a) list \<Rightarrow> (nat \<times> 'a) list" where
  "clearInterval h ts = filter (\<lambda>t. fst t \<noteq> h) ts"

text \<open>What a component does to the outside: requests, and calls of the callbacks.\<close>

datatype effect =
    Fetch request
  | UpdateProjectStatus string string
  | OnComplete string

fun is_fetch :: "effect \<Rightarrow> bool" where
  "is_fetch (Fetch r) = True"
| "is_fetch (UpdateProjectStatus p st) = False"
| "is_fetch (OnComplete st) = False"

definition fetches :: "effect list \<Rightarrow> nat" where
  "fetches fx = length (filter is_fetch fx)"

definition completions :: "effect list \<Rightarrow> nat" where
  "completions fx = length (filter (\<lambda>e. \<not> is_fetch e) fx)"

text \<open>The effect of the \<^verbatim>\<open>updateProjectStatus\<close> calls of a component on the context.\<close>

fun apply_effects :: "effect list \<Rightarrow> ctx \<Rightarrow> ctx" where
  "apply_effects [] c = c"
| "apply_effects (UpdateProjectStatus p st # fx) c = apply_effects fx (snd (updateProjectStatus p st c))"
| "apply_effects (e # fx) c = apply_effects fx c"

section \<open>LogViewer\<close>

record lv_props =
  lv_deploymentId :: "string option"
  lv_projectId :: "string option"

text \<open>
  The \<^verbatim>\<open>useState\<close> cells and refs of the component, the timers it has registered, the
  number of log requests sent and not yet settled, and its effects so far.
\<close>

record logviewer =
  lv_logs :: "log_entry list"
  lv_isLoading :: bool
  lv_error :: "string option"
  pollingActive :: bool
  pollingRef :: "nat option"
  doneDetectedRef :: bool
  lv_timers :: "(nat \<times> nat) list"
  lv_next :: nat
  lv_mounted :: bool
  lv_outstanding :: nat
  lv_fx :: "effect list"

definition lv_init :: logviewer where
  "lv_init = \<lparr>lv_logs = [], lv_isLoading = True, lv_error = None, pollingActive = True,
              pollingRef = None, doneDetectedRef = False, lv_timers = [], lv_next = 0,
              lv_mounted = True, lv_outstanding = 0, lv_fx = []\<rparr>"

text \<open>\<^verbatim>\<open>fetchLogs\<close> up to its \<^verbatim>\<open>await\<close>: the request is sent.\<close>

definition fetchLogs_start :: "lv_props \<Rightarrow> logviewer \<Rightarrow> logviewer" where
  "fetchLogs_start P s =
     s\<lparr>lv_outstanding := lv_outstanding s + 1,
       lv_fx := lv_fx s @ [Fetch (GET_logs (lv_deploymentId P))]\<rparr>"

text \<open>
  \<^verbatim>\<open>if (pollingRef.current) { clearInterval(pollingRef.current); pollingRef.current = null; }\<close>
\<close>

definition lv_stop_polling :: "logviewer \<Rightarrow> logviewer" where
  "lv_stop_polling s =
     (case pollingRef s of
        None \<Rightarrow> s
      | Some h \<Rightarrow> s\<lparr>lv_timers := clearInterval h (lv_timers s), pollingRef := None\<rparr>)"

definition fetchLogs_catch :: "string \<Rightarrow> logviewer \<Rightarrow> logviewer" where
  "fetchLogs_catch m s = s\<lparr>lv_error := Some (''Failed to fetch logs: '' @ m), lv_isLoading := False\<rparr>"

text \<open>\<^verbatim>\<open>fetchLogs\<close> after its \<^verbatim>\<open>await\<close>: the request has settled.\<close>

fun fetchLogs_settle :: "lv_props \<Rightarrow> log_entry list option http \<Rightarrow> logviewer \<Rightarrow> logviewer" where
  "fetchLogs_settle P (Response st msg d) s =
     (if st = ''success''
      then (let newLogs = (case d of None \<Rightarrow> [] | Some ls \<Rightarrow> ls);
                s1 = s\<lparr>lv_logs := newLogs\<rparr>;
                s2 = (if isDone newLogs \<and> \<not> doneDetectedRef s1 \<and> truthy (lv_projectId P)
                      then lv_stop_polling
                             (s1\<lparr>doneDetectedRef := True, pollingActive := False,
                                 lv_fx := lv_fx s1 @
                                   [UpdateProjectStatus (or_default (lv_projectId P) []) ''success'']\<rparr>)
                      else s1)
            in s2\<lparr>lv_isLoading := False\<rparr>)
      else fetchLogs_catch (or_default msg ''Failed to fetch logs'') s)"
| "fetchLogs_settle P (Failed m) s = fetchLogs_catch m s"

text \<open>
  The body of the \<^verbatim>\<open>useEffect\<close>: without a deployment id it only clears the loading
  flag and registers no cleanup; otherwise it fetches at once and starts the interval.
\<close>

definition lv_effect :: "lv_props \<Rightarrow> logviewer \<Rightarrow> logviewer" where
  "lv_effect P s =
     (if \<not> truthy (lv_deploymentId P) then s\<lparr>lv_isLoading := False\<rparr>
      else (let s1 = fetchLogs_start P s
            in s1\<lparr>pollingRef := Some (lv_next s1),
                  lv_timers := lv_timers s1 @ [(lv_next s1, 5000)],
                  lv_next := lv_next s1 + 1\<rparr>))"

definition lv_cleanup :: "lv_props \<Rightarrow> logviewer \<Rightarrow> logviewer" where
  "lv_cleanup P s = (if \<not> truthy (lv_deploymentId P) then s else lv_stop_polling s)"

definition lv_mount :: "lv_props \<Rightarrow> logviewer" where
  "lv_mount P = lv_effect P lv_init"

text \<open>
  What can happen to a mounted LogViewer: a registered timer fires, a request settles,
  the component is rendered with a changed dependency of the effect, or it is
  unmounted. The effect lists \<^verbatim>\<open>[deploymentId, projectId, updateProjectStatus]\<close>, and
  \<^verbatim>\<open>ProjectProvider\<close> creates \<^verbatim>\<open>updateProjectStatus\<close> anew at each of its renders (it
  is a plain function of the component body, not wrapped in \<^verbatim>\<open>useCallback\<close>), so
  every render of the provider, such as the one that follows \<^verbatim>\<open>setProjects\<close>, runs
  the cleanup and then the body of the effect again, with the same ids.
\<close>

datatype lv_event =
    LTick nat
  | LResp "log_entry list option http"
  | LRerun
  | LUnmount

fun lv_step :: "lv_props \<Rightarrow> logviewer \<Rightarrow> lv_event \<Rightarrow> logviewer" where
  "lv_step P s (LTick h) =
     (if list_ex (\<lambda>t. fst t = h) (lv_timers s) then fetchLogs_start P s else s)"
| "lv_step P s (LResp r) =
     (if 0 < lv_outstanding s
      then fetchLogs_settle P r (s\<lparr>lv_outstanding := lv_outstanding s - 1\<rparr>)
      else s)"
| "lv_step P s LRerun = (if lv_mounted s then lv_effect P (lv_cleanup P s) else s)"
| "lv_step P s LUnmount = (if lv_mounted s then (lv_cleanup P s)\<lparr>lv_mounted := False\<rparr> else s)"

definition lv_run :: "lv_props \<Rightarrow> logviewer \<Rightarrow> lv_event list \<Rightarrow> logviewer" where
  "lv_run P s es = foldl (lv_step P) s es"

section \<open>DeploymentModal\<close>

record md_props =
  md_projectId :: "string option"
  md_deploymentId :: "string option"
  isRedeployment :: bool
  initialDeployment :: bool
  has_onComplete :: bool

text \<open>
  \<^verbatim>\<open>fetchDeploymentStatus\<close> is created anew at every render and reads
  \<^verbatim>\<open>deploymentStatus\<close> and \<^verbatim>\<open>currentDeploymentId\<close> of that render: a call carries the
  values of the render its function instance comes from.
\<close>

record closure =
  c_deploymentStatus :: string
  c_currentDeploymentId :: "string option"

text \<open>
  A suspended call: \<^verbatim>\<open>startDeployment\<close> awaiting the deploy request, or
  \<^verbatim>\<open>fetchDeploymentStatus\<close> awaiting the status request or the logs request (with
  \<^verbatim>\<open>newStatus\<close>). The flag says that the call was made by \<^verbatim>\<open>startDeployment\<close>, which
  clears \<^verbatim>\<open>isInitialLoading\<close> when the call returns.
\<close>

datatype pending =
    AwaitDeploy closure
  | AwaitStatus bool closure
  | AwaitLogs bool string

record modal =
  md_logs :: "log_entry list"
  deploymentStatus :: string
  md_error :: "string option"
  lastLogCount :: nat
  pollCount :: nat
  isInitialLoading :: bool
  currentDeploymentId :: "string option"
  deploymentFinished :: bool
  pollingInterval :: "nat option"
  projectRefreshed :: bool
  md_timers :: "(nat \<times> nat \<times> closure) list"
  md_next :: nat
  md_mounted :: bool
  md_pending :: "pending list"
  md_fx :: "effect list"

definition md_init :: "md_props \<Rightarrow> modal" where
  "md_init P = \<lparr>md_logs = [], deploymentStatus = ''running'', md_error = None, lastLogCount = 0,
                pollCount = 0, isInitialLoading = True, currentDeploymentId = md_deploymentId P,
                deploymentFinished = False, pollingInterval = None, projectRefreshed = False,
                md_timers = [], md_next = 0, md_mounted = True, md_pending = [], md_fx = []\<rparr>"

definition closure_of :: "modal \<Rightarrow> closure" where
  "closure_of s = \<lparr>c_deploymentStatus = deploymentStatus s,
                   c_currentDeploymentId = currentDeploymentId s\<rparr>"

text \<open>
  \<^verbatim>\<open>if (pollingInterval.current) { clearInterval(pollingInterval.current);
       pollingInterval.current = null; }\<close>
\<close>

definition md_stop_polling :: "modal \<Rightarrow> modal" where
  "md_stop_polling s =
     (case pollingInterval s of
        None \<Rightarrow> s
      | Some h \<Rightarrow> s\<lparr>md_timers := clearInterval h (md_timers s), pollingInterval := None\<rparr>)"

text \<open>The call returns to its caller.\<close>

definition fds_return :: "bool \<Rightarrow> modal \<Rightarrow> modal" where
  "fds_return from_start s = (if from_start then s\<lparr>isInitialLoading := False\<rparr> else s)"

text \<open>\<^verbatim>\<open>fetchDeploymentStatus\<close> up to its first \<^verbatim>\<open>await\<close>.\<close>

definition fetchDeploymentStatus :: "md_props \<Rightarrow> bool \<Rightarrow> closure \<Rightarrow> modal \<Rightarrow> modal" where
  "fetchDeploymentStatus P from_start cl s =
     (if pollingInterval s = None then fds_return from_start s
      else s\<lparr>md_pending := md_pending s @ [AwaitStatus from_start cl],
             md_fx := md_fx s @ [Fetch (GET_status (md_projectId P))]\<rparr>)"

definition fds_catch :: "bool \<Rightarrow> string \<Rightarrow> modal \<Rightarrow> modal" where
  "fds_catch from_start m s =
     fds_return from_start
       (md_stop_polling (s\<lparr>md_error := Some (or_default (Some m) ''Failed to get deployment status'')\<rparr>))"

text \<open>
  The status request has settled; its data are \<^verbatim>\<open>currentStatus\<close> and
  \<^verbatim>\<open>latestDeployment?.id\<close>.
\<close>

fun fds_status_settle ::
  "md_props \<Rightarrow> bool \<Rightarrow> closure \<Rightarrow> (string \<times> string option) http \<Rightarrow> modal \<Rightarrow> modal" where
  "fds_status_settle P from_start cl (Response st msg (currentStatus, latest)) s =
     (if st \<noteq> ''success''
      then fds_catch from_start (or_default msg ''Failed to get deployment status'') s
      else (let newStatus = toLowerCase currentStatus;
                s1 = (if c_deploymentStatus cl \<noteq> newStatus
                      then s\<lparr>deploymentStatus := newStatus\<rparr> else s);
                adopt = (\<not> truthy (c_currentDeploymentId cl) \<and> truthy latest);
                logsDeploymentId = (if adopt then latest else c_currentDeploymentId cl);
                s2 = (if adopt then s1\<lparr>currentDeploymentId := latest\<rparr> else s1)
            in if \<not> truthy logsDeploymentId then fds_return from_start s2
               else s2\<lparr>md_pending := md_pending s2 @ [AwaitLogs from_start newStatus],
                       md_fx := md_fx s2 @ [Fetch (GET_logs logsDeploymentId)]\<rparr>))"
| "fds_status_settle P from_start cl (Failed m) s = fds_catch from_start m s"

text \<open>The logs request has settled.\<close>

fun fds_logs_settle ::
  "md_props \<Rightarrow> bool \<Rightarrow> string \<Rightarrow> log_entry list option http \<Rightarrow> modal \<Rightarrow> modal" where
  "fds_logs_settle P from_start newStatus (Response st msg d) s =
     (if st \<noteq> ''success''
      then fds_catch from_start (or_default msg ''Failed to fetch deployment logs'') s
      else (let newLogs = (case d of None \<Rightarrow> [] | Some ls \<Rightarrow> ls)
            in fds_return from_start
                 (if hasDoneLog newLogs \<and> \<not> projectRefreshed s
                  then (let s1 = md_stop_polling
                                   (s\<lparr>projectRefreshed := True, deploymentFinished := True\<rparr>)
                        in if has_onComplete P
                           then s1\<lparr>md_fx := md_fx s1 @ [OnComplete newStatus]\<rparr> else s1)
                  else s\<lparr>md_logs := newLogs\<rparr>)))"
| "fds_logs_settle P from_start newStatus (Failed m) s = fds_catch from_start m s"

text \<open>
  \<^verbatim>\<open>startDeployment\<close>: a new deployment is requested only without a deployment id, when
  it is neither a redeployment nor an initial deployment, and with a project id; then
  status and logs are fetched. A failure of the deploy request ends in the empty
  \<^verbatim>\<open>catch\<close>.
\<close>

definition startDeployment :: "md_props \<Rightarrow> closure \<Rightarrow> modal \<Rightarrow> modal" where
  "startDeployment P cl s =
     (let s1 = s\<lparr>isInitialLoading := True\<rparr>
      in if \<not> truthy (md_deploymentId P) \<and> \<not> isRedeployment P \<and> \<not> initialDeployment P
            \<and> truthy (md_projectId P)
         then s1\<lparr>md_pending := md_pending s1 @ [AwaitDeploy cl],
                 md_fx := md_fx s1 @ [Fetch (POST_deploy (md_projectId P))]\<rparr>
         else fetchDeploymentStatus P True cl s1)"

fun startDeployment_settle :: "md_props \<Rightarrow> closure \<Rightarrow> unit http \<Rightarrow> modal \<Rightarrow> modal" where
  "startDeployment_settle P cl (Response st msg u) s =
     (if st \<noteq> ''success'' then s else fetchDeploymentStatus P True cl s)"
| "startDeployment_settle P cl (Failed m) s = s"

text \<open>
  The effect with dependencies \<^verbatim>\<open>[deploymentId, currentDeploymentId]\<close>.
\<close>

definition sync_effect :: "md_props \<Rightarrow> closure \<Rightarrow> modal \<Rightarrow> modal" where
  "sync_effect P cl s =
     (if truthy (md_deploymentId P) \<and> md_deploymentId P \<noteq> c_currentDeploymentId cl
      then s\<lparr>currentDeploymentId := md_deploymentId P\<rparr> else s)"

text \<open>
  The effect with dependencies \<^verbatim>\<open>[pollCount, logs.length]\<close>, "Adjust polling frequency
  based on activity". The values it reads are those of the render \<open>r\<close>.
\<close>

definition adaptive_effect :: "modal \<Rightarrow> modal \<Rightarrow> modal" where
  "adaptive_effect r s =
     (let s1 = (if 5 < pollCount r \<and> length (md_logs r) = lastLogCount r
                then (case pollingInterval s of
                        None \<Rightarrow> s
                      | Some h \<Rightarrow>
                          s\<lparr>md_timers := clearInterval h (md_timers s) @ [(md_next s, 8000, closure_of r)],
                            pollingInterval := Some (md_next s),
                            md_next := md_next s + 1\<rparr>)
                else s)
      in s1\<lparr>lastLogCount := length (md_logs r)\<rparr>)"

text \<open>
  The effects that run after a render: each one only when one of its dependencies
  differs from the previous render \<open>old\<close>.
\<close>

definition md_effects :: "md_props \<Rightarrow> modal \<Rightarrow> modal \<Rightarrow> modal" where
  "md_effects P old r =
     (if \<not> md_mounted r then r
      else (let s1 = (if currentDeploymentId r \<noteq> currentDeploymentId old
                      then sync_effect P (closure_of r) r else r);
                s2 = (if pollCount r \<noteq> pollCount old \<or> length (md_logs r) \<noteq> length (md_logs old)
                      then adaptive_effect r s1 else s1)
            in s2))"

text \<open>Mounting runs every effect once, in the order of the source.\<close>

definition md_mount :: "md_props \<Rightarrow> modal" where
  "md_mount P =
     (let r = md_init P
      in adaptive_effect r (startDeployment P (closure_of r) (sync_effect P (closure_of r) r)))"

text \<open>A request settles with one of the three kinds of response data.\<close>

datatype md_response =
    DeployR "unit http"
  | StatusR "(string \<times> string option) http"
  | LogsR "log_entry list option http"

fun md_settle :: "md_props \<Rightarrow> pending \<Rightarrow> md_response \<Rightarrow> modal \<Rightarrow> modal option" where
  "md_settle P (AwaitDeploy cl) (DeployR r) s = Some (startDeployment_settle P cl r s)"
| "md_settle P (AwaitStatus b cl) (StatusR r) s = Some (fds_status_settle P b cl r s)"
| "md_settle P (AwaitLogs b newStatus) (LogsR r) s = Some (fds_logs_settle P b newStatus r s)"
| "md_settle P p r s = None"

text \<open>
  What can happen to a mounted modal: a registered timer fires and calls the function
  instance it was registered with, the request of the \<open>k\<close>-th suspended call settles, or
  the modal is unmounted.
\<close>

datatype md_event =
    MTick nat
  | MSettle nat md_response
  | MUnmount

fun md_handle :: "md_props \<Rightarrow> modal \<Rightarrow> md_event \<Rightarrow> modal" where
  "md_handle P s (MTick h) =
     (case find (\<lambda>t. fst t = h) (md_timers s) of
        None \<Rightarrow> s
      | Some t \<Rightarrow> fetchDeploymentStatus P False (snd (snd t)) s)"
| "md_handle P s (MSettle k r) =
     (if k < length (md_pending s)
      then (case md_settle P (md_pending s ! k) r
                   (s\<lparr>md_pending := take k (md_pending s) @ drop (Suc k) (md_pending s)\<rparr>) of
              None \<Rightarrow> s
            | Some s' \<Rightarrow> s')
      else s)"
| "md_handle P s MUnmount =
     (if md_mounted s then (md_stop_polling s)\<lparr>md_mounted := False\<rparr> else s)"

definition md_step :: "md_props \<Rightarrow> modal \<Rightarrow> md_event \<Rightarrow> modal" where
  "md_step P s e = md_effects P s (md_handle P s e)"

definition md_run :: "md_props \<Rightarrow> modal \<Rightarrow> md_event list \<Rightarrow> modal" where
  "md_run P s es = foldl (md_step P) s es"

section \<open>Responses that carry a terminal marker\<close>

text \<open>A settled log request of LogViewer whose logs make \<open>isDone\<close> true.\<close>

fun lv_marker :: "lv_event \<Rightarrow> bool" where
  "lv_marker (LResp (Response st msg d)) =
     (st = ''success'' \<and> isDone (case d of None \<Rightarrow> [] | Some ls \<Rightarrow> ls))"
| "lv_marker e = False"

section \<open>Invariants of the polling components\<close>

text \<open>LogViewer has run its completion action exactly when the latch is set.\<close>

definition lv_latched :: "logviewer \<Rightarrow> bool" where
  "lv_latched s \<longleftrightarrow> completions (lv_fx s) = (if doneDetectedRef s then 1 else 0)"

text \<open>The only timer LogViewer has registered is the one \<^verbatim>\<open>pollingRef\<close> holds.\<close>

definition lv_wf :: "logviewer \<Rightarrow> bool" where
  "lv_wf s \<longleftrightarrow> lv_timers s = (case pollingRef s of None \<Rightarrow> [] | Some h \<Rightarrow> [(h, 5000)])"

text \<open>The completion calls made by the modal, plus the one it may still make.\<close>

definition md_budget :: "modal \<Rightarrow> nat" where
  "md_budget s = completions (md_fx s) + (if projectRefreshed s then 0 else 1)"

text \<open>
  A modal without a timer, whose only suspended call waits for the deploy request and
  whose only request so far is that one; it has received no logs and detected nothing.
\<close>

fun is_deploy_wait :: "pending \<Rightarrow> bool" where
  "is_deploy_wait (AwaitDeploy cl) = True"
| "is_deploy_wait p = False"

fun is_deploy_request :: "effect \<Rightarrow> bool" where
  "is_deploy_request (Fetch (POST_deploy p)) = True"
| "is_deploy_request e = False"

definition md_idle :: "modal \<Rightarrow> bool" where
  "md_idle s \<longleftrightarrow> pollingInterval s = None \<and> md_timers s = [] \<and>
     list_all is_deploy_wait (md_pending s) \<and> list_all is_deploy_request (md_fx s) \<and>
     md_logs s = [] \<and> \<not> projectRefreshed s"

section \<open>Example values\<close>

text \<open>
  A project as \<^verbatim>\<open>createProject\<close> leaves it in the context: one running deployment
  with \<^verbatim>\<open>createdAt\<close> and no \<^verbatim>\<open>updatedAt\<close>.
\<close>

definition ex_deployment :: deployment where
  "ex_deployment = \<lparr>dep_id = Some ''d1'', dep_status = Some ''running'',
                     createdAt = Some ''2025-01-01T00:00:00.000Z'', updatedAt = None\<rparr>"

definition ex_project :: project where
  "ex_project = \<lparr>proj_id = ''p1'', proj_name = ''demo'', deployments = Some [ex_deployment]\<rparr>"

definition ex_ctx :: ctx where
  "ex_ctx = \<lparr>projects = [ex_project], isLoading = False, error = None,
             loadingRef = Map.empty, promises = [], requests = []\<rparr>"


definition ex_entry :: "string \<Rightarrow> log_entry" where
  "ex_entry m = \<lparr>timestamp = ''2025-01-01T00:00:05.000Z'', level = None, message = Some m, log = None\<rparr>"

definition ex_lv_props :: lv_props where
  "ex_lv_props = \<lparr>lv_deploymentId = Some ''d1'', lv_projectId = Some ''p1''\<rparr>"

definition ex_md_props :: md_props where
  "ex_md_props = \<lparr>md_projectId = Some ''p1'', md_deploymentId = Some ''d1'',
                  isRedeployment = False, initialDeployment = False, has_onComplete = True\<rparr>"

definition ex_closure :: closure where
  "ex_closure = \<lparr>c_deploymentStatus = ''running'', c_currentDeploymentId = Some ''d1''\<rparr>"

text \<open>
  A modal whose polling timer is live, slowed down to 8000 ms after six polls, with one
  log entry seen and one call waiting for its logs: a state the handlers of the
  component are written for.
\<close>

definition ex_modal :: modal where
  "ex_modal = \<lparr>md_logs = [ex_entry ''Building...''], deploymentStatus = ''running'',
               md_error = None, lastLogCount = 1, pollCount = 6, isInitialLoading = False,
               currentDeploymentId = Some ''d1'', deploymentFinished = False,
               pollingInterval = Some 1, projectRefreshed = False,
               md_timers = [(1, 8000, ex_closure)], md_next = 2, md_mounted = True,
               md_pending = [AwaitLogs False ''running''], md_fx = []\<rparr>"

section \<open>Strings\<close>

lemma startsWith_iff: "startsWith s t \<longleftrightarrow> (\<exists>ys. s = t @ ys)"
  by (induction s t rule: startsWith.induct) auto

text \<open>\<open>str_includes\<close> is the substring test.\<close>

lemma str_includes_iff: "str_includes s t \<longleftrightarrow> (\<exists>xs ys. s = xs @ t @ ys)"
proof (induction s)
  case Nil
  then show ?case by auto
next
  case (Cons a s)
  show ?case
  proof
    assume "str_includes (a # s) t"
    then consider "startsWith (a # s) t" | "str_includes s t" by auto
    then show "\<exists>xs ys. a # s = xs @ t @ ys"
    proof cases
      case 1
      then obtain ys where "a # s = t @ ys" using startsWith_iff by blast
      then have "a # s = [] @ t @ ys" by simp
      then show ?thesis by blast
    next
      case 2
      then obtain xs ys where "s = xs @ t @ ys" using Cons.IH by blast
      then have "a # s = (a # xs) @ t @ ys" by simp
      then show ?thesis by blast
    qed
  next
    assume "\<exists>xs ys. a # s = xs @ t @ ys"
    then obtain xs ys where e: "a # s = xs @ t @ ys" by blast
    show "str_includes (a # s) t"
    proof (cases xs)
      case Nil
      then have "startsWith (a # s) t" using e startsWith_iff by auto
      then show ?thesis by simp
    next
      case (Cons x xs')
      then have "s = xs' @ t @ ys" using e by simp
      then have "str_includes s t" using Cons.IH by blast
      then show ?thesis by simp
    qed
  qed
qed

section \<open>Terminal detection from log content\<close>

text \<open>
  LogViewer detects the terminal state exactly when the lowercased text of some entry
  (its \<^verbatim>\<open>message\<close>, or its \<^verbatim>\<open>log\<close> field when there is no message) contains one of
  the two markers.
\<close>

lemma isDone_iff:
  "isDone newLogs \<longleftrightarrow>
     (\<exists>l \<in> set newLogs. \<exists>xs ys.
        toLowerCase (entry_text l) = xs @ ''done'' @ ys \<or>
        toLowerCase (entry_text l) = xs @ ''completed successfully'' @ ys)"
  unfolding isDone_def list_ex_iff Let_def str_includes_iff by blast

text \<open>DeploymentModal looks for the marker "done" only, in either field.\<close>

lemma hasDoneLog_iff:
  "hasDoneLog newLogs \<longleftrightarrow>
     (\<exists>l \<in> set newLogs. \<exists>m xs ys.
        (message l = Some m \<or> log l = Some m) \<and> toLowerCase m = xs @ ''done'' @ ys)"
proof -
  have o: "opt_includes_done x \<longleftrightarrow> (\<exists>m xs ys. x = Some m \<and> toLowerCase m = xs @ ''done'' @ ys)"
    for x by (cases x) (auto simp: str_includes_iff)
  show ?thesis unfolding hasDoneLog_def list_ex_iff o by blast
qed

text \<open>
  The two predicates differ on the single message "Build completed successfully".
\<close>

lemma hasDoneLog_narrower_than_isDone:
  "isDone [ex_entry ''Build completed successfully''] \<and>
   \<not> hasDoneLog [ex_entry ''Build completed successfully'']"
  by code_simp

section \<open>The project context: fetchProjects and deleteProject\<close>

text \<open>
  Claim C10: without a stored token (\<^verbatim>\<open>getItem\<close> gives \<^verbatim>\<open>null\<close>, or the empty string)
  \<^verbatim>\<open>fetchProjects\<close> returns the empty list at once and leaves the whole context as it
  was: no request is sent, and neither the project list nor the error is touched.
\<close>

theorem fetchProjects_without_token:
  "\<not> truthy token \<Longrightarrow> fetchProjects_start token s = (Some [], s)"
  by (simp add: fetchProjects_start_def)

theorem fetchProjects_without_token_witness:
  "\<not> truthy None \<and> fetchProjects_start None ex_ctx = (Some [], ex_ctx)"
  using fetchProjects_without_token [of None ex_ctx] by simp

text \<open>With a token the request is sent.\<close>

lemma fetchProjects_with_token:
  "truthy token \<Longrightarrow> requests (snd (fetchProjects_start token s)) = requests s @ [GET_projects]"
  by (simp add: fetchProjects_start_def)

text \<open>
  Claim C9: when the server does not answer \<^verbatim>\<open>deleteProject(id)\<close> with status "success",
  or the request fails, the call throws and the project list is unchanged; the project
  is removed from the list only after a successful response.
\<close>

theorem deleteProject_atomic_on_error:
  "(\<not> is_success out \<longrightarrow>
      (\<exists>m. fst (deleteProject projectId out s) = Inl m) \<and>
      projects (snd (deleteProject projectId out s)) = projects s) \<and>
   (is_success out \<longrightarrow>
      fst (deleteProject projectId out s) = Inr True \<and>
      projects (snd (deleteProject projectId out s)) =
        filter (\<lambda>p. proj_id p \<noteq> projectId) (projects s))"
  by (cases out) (auto simp: deleteProject_def deleteProject_start_def deleteProject_catch_def)

theorem deleteProject_atomic_on_error_witness:
  "\<not> is_success (Response ''error'' (Some ''not allowed'') ()) \<and>
   fst (deleteProject ''p1'' (Response ''error'' (Some ''not allowed'') ()) ex_ctx) = Inl ''not allowed'' \<and>
   projects (snd (deleteProject ''p1'' (Response ''error'' (Some ''not allowed'') ()) ex_ctx)) = [ex_project] \<and>
   \<not> is_success (Failed ''Network Error'') \<and>
   projects (snd (deleteProject ''p1'' (Failed ''Network Error'') ex_ctx)) = [ex_project] \<and>
   is_success (Response ''success'' None ()) \<and>
   projects (snd (deleteProject ''p1'' (Response ''success'' None ()) ex_ctx)) = []"
  using deleteProject_atomic_on_error [of "Response ''error'' (Some ''not allowed'') ()" "''p1''" ex_ctx]
    deleteProject_atomic_on_error [of "Failed ''Network Error''" "''p1''" ex_ctx]
    deleteProject_atomic_on_error [of "Response ''success'' None ()" "''p1''" ex_ctx]
  by (simp add: deleteProject_def deleteProject_start_def deleteProject_catch_def
      ex_ctx_def ex_project_def)

section \<open>getProjectById: one request per project id in flight\<close>

















text \<open>
  A successful \<^verbatim>\<open>deleteProject\<close> for the id removes the promise from the ledger while
  its request is still pending, so that a later call for the id sends a second request.
\<close>

lemma deleteProject_reopens_ledger:
  "requests (snd (getProjectById_call [] ''p2''
      (snd (deleteProject ''p2'' (Response ''success'' None ())
         (snd (getProjectById_call [] ''p2'' ex_ctx)))))) =
   [GET_project ''p2'', DELETE_project ''p2'', GET_project ''p2'']"
  by (simp add: getProjectById_call_def prototype_keys_def deleteProject_def deleteProject_start_def
      ex_ctx_def Let_def)

section \<open>Basic facts about the polling components\<close>

lemma completions_append [simp]: "completions (a @ b) = completions a + completions b"
  by (simp add: completions_def)

lemma fetches_append [simp]: "fetches (a @ b) = fetches a + fetches b"
  by (simp add: fetches_def)

lemma completions_simps [simp]:
  "completions [] = 0" "completions (Fetch r # fx) = completions fx"
  "completions (UpdateProjectStatus p st # fx) = Suc (completions fx)"
  "completions (OnComplete st # fx) = Suc (completions fx)"
  by (simp_all add: completions_def)

lemma fetches_simps [simp]:
  "fetches [] = 0" "fetches (Fetch r # fx) = Suc (fetches fx)"
  "fetches (UpdateProjectStatus p st # fx) = fetches fx"
  "fetches (OnComplete st # fx) = fetches fx"
  by (simp_all add: fetches_def)

lemma lv_run_simps [simp]:
  "lv_run P s [] = s" "lv_run P s (e # es) = lv_run P (lv_step P s e) es"
  by (simp_all add: lv_run_def)

lemma lv_run_append: "lv_run P s (xs @ ys) = lv_run P (lv_run P s xs) ys"
  by (simp add: lv_run_def)

lemma lv_stop_polling_fields [simp]:
  "pollingRef (lv_stop_polling s) = None"
  "lv_fx (lv_stop_polling s) = lv_fx s"
  "doneDetectedRef (lv_stop_polling s) = doneDetectedRef s"
  "lv_outstanding (lv_stop_polling s) = lv_outstanding s"
  "lv_mounted (lv_stop_polling s) = lv_mounted s"
  "lv_next (lv_stop_polling s) = lv_next s"
  by (auto simp: lv_stop_polling_def split: option.splits)

lemma fetchLogs_start_fields [simp]:
  "pollingRef (fetchLogs_start P s) = pollingRef s"
  "lv_fx (fetchLogs_start P s) = lv_fx s @ [Fetch (GET_logs (lv_deploymentId P))]"
  "doneDetectedRef (fetchLogs_start P s) = doneDetectedRef s"
  "lv_outstanding (fetchLogs_start P s) = lv_outstanding s + 1"
  "lv_mounted (fetchLogs_start P s) = lv_mounted s"
  "lv_next (fetchLogs_start P s) = lv_next s"
  "lv_timers (fetchLogs_start P s) = lv_timers s"
  by (simp_all add: fetchLogs_start_def)

lemma fetchLogs_catch_fields [simp]:
  "pollingRef (fetchLogs_catch m s) = pollingRef s"
  "lv_fx (fetchLogs_catch m s) = lv_fx s"
  "doneDetectedRef (fetchLogs_catch m s) = doneDetectedRef s"
  "lv_outstanding (fetchLogs_catch m s) = lv_outstanding s"
  "lv_mounted (fetchLogs_catch m s) = lv_mounted s"
  "lv_next (fetchLogs_catch m s) = lv_next s"
  "lv_timers (fetchLogs_catch m s) = lv_timers s"
  by (simp_all add: fetchLogs_catch_def)

lemma lv_effect_fields [simp]:
  "doneDetectedRef (lv_effect P s) = doneDetectedRef s"
  "completions (lv_fx (lv_effect P s)) = completions (lv_fx s)"
  "lv_mounted (lv_effect P s) = lv_mounted s"
  by (simp_all add: lv_effect_def Let_def)

lemma lv_cleanup_fields [simp]:
  "doneDetectedRef (lv_cleanup P s) = doneDetectedRef s"
  "lv_fx (lv_cleanup P s) = lv_fx s"
  "lv_mounted (lv_cleanup P s) = lv_mounted s"
  "lv_outstanding (lv_cleanup P s) = lv_outstanding s"
  "lv_next (lv_cleanup P s) = lv_next s"
  by (simp_all add: lv_cleanup_def)

lemma md_run_simps [simp]:
  "md_run P s [] = s" "md_run P s (e # es) = md_run P (md_step P s e) es"
  by (simp_all add: md_run_def)

lemma md_stop_polling_fields [simp]:
  "pollingInterval (md_stop_polling s) = None"
  "md_fx (md_stop_polling s) = md_fx s"
  "projectRefreshed (md_stop_polling s) = projectRefreshed s"
  "md_pending (md_stop_polling s) = md_pending s"
  "md_mounted (md_stop_polling s) = md_mounted s"
  "pollCount (md_stop_polling s) = pollCount s"
  "md_logs (md_stop_polling s) = md_logs s"
  "currentDeploymentId (md_stop_polling s) = currentDeploymentId s"
  by (auto simp: md_stop_polling_def split: option.splits)

lemma fds_return_fields [simp]:
  "pollingInterval (fds_return b s) = pollingInterval s"
  "md_fx (fds_return b s) = md_fx s"
  "projectRefreshed (fds_return b s) = projectRefreshed s"
  "md_pending (fds_return b s) = md_pending s"
  "md_mounted (fds_return b s) = md_mounted s"
  "md_timers (fds_return b s) = md_timers s"
  "pollCount (fds_return b s) = pollCount s"
  "md_logs (fds_return b s) = md_logs s"
  "currentDeploymentId (fds_return b s) = currentDeploymentId s"
  by (simp_all add: fds_return_def)

lemma fds_catch_fields [simp]:
  "pollingInterval (fds_catch b m s) = None"
  "md_fx (fds_catch b m s) = md_fx s"
  "projectRefreshed (fds_catch b m s) = projectRefreshed s"
  "md_pending (fds_catch b m s) = md_pending s"
  "md_mounted (fds_catch b m s) = md_mounted s"
  "pollCount (fds_catch b m s) = pollCount s"
  "md_logs (fds_catch b m s) = md_logs s"
  "currentDeploymentId (fds_catch b m s) = currentDeploymentId s"
  by (simp_all add: fds_catch_def)

section \<open>Invariants of LogViewer\<close>

lemma lv_latched_mount: "lv_latched (lv_mount P)"
  by (simp add: lv_latched_def lv_mount_def lv_init_def lv_effect_def Let_def)

lemma lv_latched_settle:
  "lv_latched s \<Longrightarrow> lv_latched (fetchLogs_settle P r (s\<lparr>lv_outstanding := n\<rparr>))"
  by (cases r) (auto simp: lv_latched_def Let_def)

lemma lv_latched_step: "lv_latched s \<Longrightarrow> lv_latched (lv_step P s e)"
proof (cases e)
  case (LResp r)
  assume "lv_latched s"
  then show ?thesis using LResp lv_latched_settle by simp
qed (auto simp: lv_latched_def)

lemma lv_latched_run: "lv_latched s \<Longrightarrow> lv_latched (lv_run P s es)"
  by (induction es arbitrary: s) (auto simp: lv_latched_step)

lemma lv_unlatched_step:
  "\<not> doneDetectedRef s \<Longrightarrow> \<not> lv_marker e \<Longrightarrow> \<not> doneDetectedRef (lv_step P s e)"
proof (cases e)
  case (LResp r)
  assume "\<not> doneDetectedRef s" "\<not> lv_marker e"
  then show ?thesis using LResp by (cases r) (auto simp: Let_def)
qed auto

lemma lv_unlatched_run:
  "\<not> doneDetectedRef s \<Longrightarrow> \<not> list_ex lv_marker es \<Longrightarrow> \<not> doneDetectedRef (lv_run P s es)"
  by (induction es arbitrary: s) (auto simp: lv_unlatched_step)

lemma lv_first_marker:
  assumes "\<not> doneDetectedRef s" "lv_marker e" "0 < lv_outstanding s" "truthy (lv_projectId P)"
  shows "doneDetectedRef (lv_step P s e) \<and> pollingRef (lv_step P s e) = None"
proof -
  from assms(2) obtain st msg d where e: "e = LResp (Response st msg d)"
    by (cases e rule: lv_marker.cases) auto
  with assms show ?thesis by (auto simp: Let_def)
qed

lemma lv_wf_stop: "lv_wf s \<Longrightarrow> lv_wf (lv_stop_polling s) \<and> lv_timers (lv_stop_polling s) = []"
  by (auto simp: lv_wf_def lv_stop_polling_def clearInterval_def split: option.splits)

lemma lv_wf_mount: "lv_wf (lv_mount P)"
  by (simp add: lv_wf_def lv_mount_def lv_init_def lv_effect_def fetchLogs_start_def Let_def)

lemma lv_wf_settle: "lv_wf s \<Longrightarrow> lv_wf (fetchLogs_settle P r (s\<lparr>lv_outstanding := n\<rparr>))"
proof (cases r)
  case (Response st msg d)
  assume w: "lv_wf s"
  have w1: "lv_wf (s\<lparr>lv_outstanding := n, lv_logs := ls, doneDetectedRef := True, pollingActive := False,
              lv_fx := fx\<rparr>)" for ls fx
    using w by (simp add: lv_wf_def)
  show ?thesis using Response w lv_wf_stop[OF w1]
    by (auto simp: Let_def lv_wf_def fetchLogs_catch_def)
next
  case (Failed m)
  assume "lv_wf s"
  then show ?thesis using Failed by (simp add: lv_wf_def fetchLogs_catch_def)
qed

lemma lv_wf_step: "lv_wf s \<Longrightarrow> lv_wf (lv_step P s e)"
proof (cases e)
  case (LTick h)
  assume "lv_wf s"
  then show ?thesis using LTick by (simp add: lv_wf_def)
next
  case (LResp r)
  assume "lv_wf s"
  then show ?thesis using LResp lv_wf_settle by simp
next
  case LRerun
  assume w: "lv_wf s"
  show ?thesis using LRerun w lv_wf_stop[OF w]
    by (auto simp: lv_effect_def lv_cleanup_def Let_def lv_wf_def)
next
  case LUnmount
  assume w: "lv_wf s"
  show ?thesis using LUnmount w lv_wf_stop[OF w]
    by (auto simp: lv_cleanup_def lv_wf_def)
qed

lemma lv_wf_run: "lv_wf s \<Longrightarrow> lv_wf (lv_run P s es)"
  by (induction es arbitrary: s) (auto simp: lv_wf_step)

text \<open>With no timer registered and no further run of the effect, LogViewer sends nothing.\<close>

lemma lv_quiet_step:
  assumes "lv_timers s = []" "e \<noteq> LRerun \<or> \<not> lv_mounted s"
  shows "lv_timers (lv_step P s e) = [] \<and> fetches (lv_fx (lv_step P s e)) = fetches (lv_fx s)
     \<and> (\<not> lv_mounted s \<longrightarrow> \<not> lv_mounted (lv_step P s e))"
proof (cases e)
  case (LResp r)
  have "lv_timers (lv_stop_polling x) = []" if "lv_timers x = []" for x
    using that by (simp add: lv_stop_polling_def clearInterval_def split: option.splits)
  then show ?thesis using LResp assms by (cases r) (auto simp: Let_def)
next
  case LUnmount
  then show ?thesis using assms
    by (auto simp: lv_cleanup_def lv_stop_polling_def clearInterval_def split: option.splits)
qed (use assms in auto)

lemma lv_quiet_run:
  assumes "lv_timers s = []" "LRerun \<notin> set es \<or> \<not> lv_mounted s"
  shows "fetches (lv_fx (lv_run P s es)) = fetches (lv_fx s)"
  using assms
proof (induction es arbitrary: s)
  case Nil
  then show ?case by simp
next
  case (Cons e es)
  have q: "e \<noteq> LRerun \<or> \<not> lv_mounted s" using Cons.prems(2) by auto
  note st = lv_quiet_step[OF Cons.prems(1) q, of P]
  have "LRerun \<notin> set es \<or> \<not> lv_mounted (lv_step P s e)" using Cons.prems(2) st by auto
  then have "fetches (lv_fx (lv_run P (lv_step P s e) es)) = fetches (lv_fx (lv_step P s e))"
    using Cons.IH st by blast
  then show ?case using st by simp
qed

section \<open>DeploymentModal after its mount\<close>

text \<open>
  \<^verbatim>\<open>pollingInterval.current\<close> starts as \<^verbatim>\<open>null\<close> and is assigned an interval only where
  it already holds one, so every call of \<^verbatim>\<open>fetchDeploymentStatus\<close> returns at its
  guard.
\<close>

lemma md_idle_fds: "md_idle s \<Longrightarrow> md_idle (fetchDeploymentStatus P b cl s)"
  by (simp add: md_idle_def fetchDeploymentStatus_def fds_return_def)

lemma md_idle_mount: "md_idle (md_mount P)"
proof -
  have i: "md_idle (sync_effect P (closure_of (md_init P)) (md_init P)\<lparr>isInitialLoading := True\<rparr>)"
    by (simp add: md_idle_def md_init_def sync_effect_def)
  have "md_idle (startDeployment P (closure_of (md_init P)) (sync_effect P (closure_of (md_init P)) (md_init P)))"
    using md_idle_fds[OF i] i by (auto simp: startDeployment_def Let_def md_idle_def)
  then show ?thesis
    by (simp add: md_mount_def Let_def md_idle_def adaptive_effect_def)
qed

lemma md_idle_effects: "md_idle r \<Longrightarrow> md_idle (md_effects P old r)"
  by (auto simp: md_idle_def md_effects_def Let_def adaptive_effect_def sync_effect_def)

lemma md_idle_handle: "md_idle s \<Longrightarrow> md_idle (md_handle P s e)"
proof (cases e)
  case (MTick h)
  assume "md_idle s"
  then show ?thesis using MTick by (simp add: md_idle_def)
next
  case (MSettle k r)
  assume i: "md_idle s"
  let ?s1 = "s\<lparr>md_pending := take k (md_pending s) @ drop (Suc k) (md_pending s)\<rparr>"
  have i1: "md_idle ?s1"
    using i by (auto simp: md_idle_def list_all_iff dest: in_set_takeD in_set_dropD)
  show ?thesis
  proof (cases "k < length (md_pending s)")
    case True
    then have "is_deploy_wait (md_pending s ! k)" using i by (simp add: md_idle_def list_all_length)
    then obtain cl where p: "md_pending s ! k = AwaitDeploy cl"
      by (cases "md_pending s ! k") auto
    show ?thesis
    proof (cases r)
      case (DeployR d)
      have "md_idle (startDeployment_settle P cl d ?s1)"
        using i1 md_idle_fds[OF i1] by (cases d) auto
      then show ?thesis using MSettle True p DeployR by simp
    next
      case (StatusR x)
      then show ?thesis using MSettle True p i by simp
    next
      case (LogsR x)
      then show ?thesis using MSettle True p i by simp
    qed
  next
    case False
    then show ?thesis using MSettle i by simp
  qed
next
  case MUnmount
  assume "md_idle s"
  then show ?thesis using MUnmount by (simp add: md_idle_def md_stop_polling_def)
qed

lemma md_idle_run: "md_idle s \<Longrightarrow> md_idle (md_run P s es)"
  by (induction es arbitrary: s) (auto simp: md_step_def md_idle_effects md_idle_handle)

text \<open>
  From its mount on, the modal registers no timer and sends no status or logs request.
\<close>

lemma md_never_polls:
  "pollingInterval (md_run P (md_mount P) es) = None \<and>
   md_timers (md_run P (md_mount P) es) = [] \<and>
   list_all is_deploy_request (md_fx (md_run P (md_mount P) es))"
  using md_idle_run[OF md_idle_mount, where P = P and es = es] by (simp add: md_idle_def)

lemma md_never_detects:
  "\<not> projectRefreshed (md_run P (md_mount P) es) \<and> md_logs (md_run P (md_mount P) es) = []"
  using md_idle_run[OF md_idle_mount, where P = P and es = es] by (simp add: md_idle_def)

section \<open>Terminal detection in the components that receive logs\<close>

lemma lv_detects_iff:
  assumes "\<not> doneDetectedRef s" "truthy (lv_projectId P)" "0 < lv_outstanding s"
  shows "doneDetectedRef (lv_step P s (LResp (Response ''success'' msg (Some newLogs)))) \<longleftrightarrow>
         isDone newLogs"
  using assms by (simp add: Let_def)

text \<open>
  Claim C3: for every fetched log set the terminal state is detected if and only if the
  lowercased message of some entry (its \<^verbatim>\<open>message\<close>, or its \<^verbatim>\<open>log\<close> field when there
  is no message) contains "done" or "completed successfully", in every component that
  performs the detection on log content. LogViewer's test is exactly this, and an
  unlatched LogViewer with a project id sets its latch on a log response exactly when
  the test holds. DeploymentModal never receives a log set: from its mount on it sends
  no status or logs request, keeps its empty log list and detects nothing.
\<close>

theorem terminal_detection_markers:
  "(isDone newLogs \<longleftrightarrow>
      (\<exists>l \<in> set newLogs. \<exists>xs ys.
         toLowerCase (entry_text l) = xs @ ''done'' @ ys \<or>
         toLowerCase (entry_text l) = xs @ ''completed successfully'' @ ys)) \<and>
   (\<not> doneDetectedRef s \<and> truthy (lv_projectId P) \<and> 0 < lv_outstanding s \<longrightarrow>
      (doneDetectedRef (lv_step P s (LResp (Response ''success'' msg (Some newLogs)))) \<longleftrightarrow>
       isDone newLogs)) \<and>
   list_all is_deploy_request (md_fx (md_run Q (md_mount Q) es)) \<and>
   md_logs (md_run Q (md_mount Q) es) = [] \<and>
   \<not> projectRefreshed (md_run Q (md_mount Q) es)"
  using isDone_iff[of newLogs] lv_detects_iff[of s P msg newLogs]
    md_never_polls[of Q es] md_never_detects[of Q es]
  by blast

theorem terminal_detection_markers_witness:
  "\<not> doneDetectedRef (lv_mount ex_lv_props) \<and> truthy (lv_projectId ex_lv_props) \<and>
   0 < lv_outstanding (lv_mount ex_lv_props) \<and>
   isDone [ex_entry ''Build completed successfully''] \<and>
   doneDetectedRef (lv_step ex_lv_props (lv_mount ex_lv_props)
     (LResp (Response ''success'' None (Some [ex_entry ''Build completed successfully''])))) \<and>
   \<not> isDone [ex_entry ''Building...''] \<and>
   \<not> doneDetectedRef (lv_step ex_lv_props (lv_mount ex_lv_props)
     (LResp (Response ''success'' None (Some [ex_entry ''Building...''])))) \<and>
   md_logs (md_run ex_md_props (md_mount ex_md_props) [MTick 0, MTick 1]) = []"
proof -
  have h1: "\<not> doneDetectedRef (lv_mount ex_lv_props)"
    by (simp add: lv_mount_def lv_init_def)
  have h2: "truthy (lv_projectId ex_lv_props)" by (simp add: ex_lv_props_def)
  have h3: "0 < lv_outstanding (lv_mount ex_lv_props)"
    by (simp add: lv_mount_def lv_effect_def lv_init_def ex_lv_props_def Let_def)
  have h4: "isDone [ex_entry ''Build completed successfully'']" by code_simp
  have h5: "\<not> isDone [ex_entry ''Building...'']" by code_simp
  from terminal_detection_markers[of "[ex_entry ''Build completed successfully'']"
      "lv_mount ex_lv_props" ex_lv_props None ex_md_props "[MTick 0, MTick 1]"]
    terminal_detection_markers[of "[ex_entry ''Building...'']"
      "lv_mount ex_lv_props" ex_lv_props None ex_md_props "[MTick 0, MTick 1]"]
  show ?thesis using h1 h2 h3 h4 h5 by blast
qed

section \<open>Completion: what LogViewer does on the first terminal detection\<close>

lemma updateProjectStatus_projects:
  "projects (snd (updateProjectStatus pid st c)) =
     map (\<lambda>p. if proj_id p = pid
              then p\<lparr>deployments := Some (set_latest_status st (deployments p))\<rparr> else p) (projects c)"
  by (simp add: updateProjectStatus_def)

lemma lv_stop_polling_timers:
  "pollingRef s = Some h \<Longrightarrow> \<not> list_ex (\<lambda>t. fst t = h) (lv_timers (lv_stop_polling s))"
  by (auto simp: lv_stop_polling_def clearInterval_def list_ex_iff)


text \<open>
  Claim C7 as stated: on the first terminal detection the final status is merged into
  the cached job, setting both \<^verbatim>\<open>status\<close> and \<^verbatim>\<open>updatedAt\<close>, and the poller is
  stopped. After the first response with a "done" entry, the cached deployment of the
  example project has status "success" and still no \<^verbatim>\<open>updatedAt\<close>.
\<close>

theorem completion_leaves_updatedAt_unset_counterexample:
  "map deployments
     (projects (apply_effects
        (lv_fx (lv_run ex_lv_props (lv_mount ex_lv_props)
                  [LResp (Response ''success'' None (Some [ex_entry ''Build done'']))]))
        ex_ctx)) =
   [Some [\<lparr>dep_id = Some ''d1'', dep_status = Some ''success'',
           createdAt = Some ''2025-01-01T00:00:00.000Z'', updatedAt = None\<rparr>]]"
  by code_simp

text \<open>
  Claim C7, amended: on the first terminal detection LogViewer stops its poller and
  calls \<^verbatim>\<open>updateProjectStatus(projectId, "success")\<close> once; that call sets the status of
  the most recent deployment of the cached project with that id and leaves its
  \<^verbatim>\<open>updatedAt\<close>, \<^verbatim>\<open>createdAt\<close> and \<^verbatim>\<open>id\<close>, the older deployments and every other project
  as they were.
\<close>

theorem completion_sets_status_only:
  assumes "isDone newLogs" and "\<not> doneDetectedRef s" and "lv_projectId P = Some pid"
    and "pid \<noteq> []" and "0 < lv_outstanding s"
  shows
   "lv_fx (lv_step P s (LResp (Response ''success'' msg (Some newLogs)))) =
      lv_fx s @ [UpdateProjectStatus pid ''success''] \<and>
    pollingRef (lv_step P s (LResp (Response ''success'' msg (Some newLogs)))) = None \<and>
    (\<forall>h. pollingRef s = Some h \<longrightarrow>
       \<not> list_ex (\<lambda>t. fst t = h) (lv_timers (lv_step P s (LResp (Response ''success'' msg (Some newLogs)))))) \<and>
    length (projects (apply_effects [UpdateProjectStatus pid ''success''] c)) = length (projects c) \<and>
    (\<forall>i < length (projects c).
       (proj_id (projects c ! i) \<noteq> pid \<longrightarrow>
          projects (apply_effects [UpdateProjectStatus pid ''success''] c) ! i = projects c ! i) \<and>
       (\<forall>d ds. proj_id (projects c ! i) = pid \<and> deployments (projects c ! i) = Some (d # ds) \<longrightarrow>
          (\<exists>d'. deployments (projects (apply_effects [UpdateProjectStatus pid ''success''] c) ! i) = Some (d' # ds) \<and>
                dep_status d' = Some ''success'' \<and> updatedAt d' = updatedAt d \<and>
                createdAt d' = createdAt d \<and> dep_id d' = dep_id d)))"
proof -
  let ?s' = "lv_step P s (LResp (Response ''success'' msg (Some newLogs)))"
  have s': "?s' = (lv_stop_polling (s\<lparr>lv_outstanding := lv_outstanding s - 1, lv_logs := newLogs,
        doneDetectedRef := True, pollingActive := False,
        lv_fx := lv_fx s @ [UpdateProjectStatus pid ''success'']\<rparr>))\<lparr>lv_isLoading := False\<rparr>"
    using assms by (simp add: Let_def)
  have a: "lv_fx ?s' = lv_fx s @ [UpdateProjectStatus pid ''success'']"
    unfolding s' by (simp add: lv_stop_polling_fields)
  have b: "pollingRef ?s' = None"
    unfolding s' by (simp add: lv_stop_polling_fields)
  have c: "\<forall>h. pollingRef s = Some h \<longrightarrow> \<not> list_ex (\<lambda>t. fst t = h) (lv_timers ?s')"
    unfolding s' by (auto simp: lv_stop_polling_def clearInterval_def list_ex_iff)
  have d: "length (projects (apply_effects [UpdateProjectStatus pid ''success''] c)) = length (projects c)"
    by (simp add: updateProjectStatus_projects)
  have e: "\<forall>i < length (projects c).
       (proj_id (projects c ! i) \<noteq> pid \<longrightarrow>
          projects (apply_effects [UpdateProjectStatus pid ''success''] c) ! i = projects c ! i) \<and>
       (\<forall>d ds. proj_id (projects c ! i) = pid \<and> deployments (projects c ! i) = Some (d # ds) \<longrightarrow>
          (\<exists>d'. deployments (projects (apply_effects [UpdateProjectStatus pid ''success''] c) ! i) = Some (d' # ds) \<and>
                dep_status d' = Some ''success'' \<and> updatedAt d' = updatedAt d \<and>
                createdAt d' = createdAt d \<and> dep_id d' = dep_id d))"
    by (simp add: updateProjectStatus_projects)
  from a b c d e show ?thesis by blast
qed


theorem completion_sets_status_only_witness:
  "isDone [ex_entry ''Build done''] \<and> \<not> doneDetectedRef (lv_mount ex_lv_props) \<and>
   lv_projectId ex_lv_props = Some ''p1'' \<and> 0 < lv_outstanding (lv_mount ex_lv_props) \<and>
   pollingRef (lv_mount ex_lv_props) = Some 0 \<and>
   lv_fx (lv_step ex_lv_props (lv_mount ex_lv_props)
           (LResp (Response ''success'' None (Some [ex_entry ''Build done''])))) =
     [Fetch (GET_logs (Some ''d1'')), UpdateProjectStatus ''p1'' ''success''] \<and>
   pollingRef (lv_step ex_lv_props (lv_mount ex_lv_props)
           (LResp (Response ''success'' None (Some [ex_entry ''Build done''])))) = None \<and>
   \<not> list_ex (\<lambda>t. fst t = 0) (lv_timers (lv_step ex_lv_props (lv_mount ex_lv_props)
           (LResp (Response ''success'' None (Some [ex_entry ''Build done'']))))) \<and>
   proj_id (projects ex_ctx ! 0) = ''p1'' \<and>
   deployments (projects ex_ctx ! 0) = Some [ex_deployment] \<and>
   (\<exists>d'. deployments (projects (apply_effects [UpdateProjectStatus ''p1'' ''success''] ex_ctx) ! 0) = Some [d'] \<and>
         dep_status d' = Some ''success'' \<and> updatedAt d' = updatedAt ex_deployment \<and>
         createdAt d' = createdAt ex_deployment \<and> dep_id d' = dep_id ex_deployment)"
proof -
  have h1: "isDone [ex_entry ''Build done'']" by code_simp
  have h2: "\<not> doneDetectedRef (lv_mount ex_lv_props)"
    by (simp add: lv_mount_def lv_effect_def lv_init_def fetchLogs_start_def ex_lv_props_def Let_def)
  have h3: "lv_projectId ex_lv_props = Some ''p1''" by (simp add: ex_lv_props_def)
  have h4: "''p1'' \<noteq> []" by simp
  have h5: "0 < lv_outstanding (lv_mount ex_lv_props)"
    by (simp add: lv_mount_def lv_effect_def lv_init_def fetchLogs_start_def ex_lv_props_def Let_def)
  have h6: "pollingRef (lv_mount ex_lv_props) = Some 0"
    by (simp add: lv_mount_def lv_effect_def lv_init_def fetchLogs_start_def ex_lv_props_def Let_def)
  have h7: "lv_fx (lv_mount ex_lv_props) = [Fetch (GET_logs (Some ''d1''))]"
    by (simp add: lv_mount_def lv_effect_def lv_init_def fetchLogs_start_def ex_lv_props_def Let_def)
  have h8: "projects ex_ctx = [ex_project]" "proj_id ex_project = ''p1''"
    "deployments ex_project = Some [ex_deployment]"
    by (simp_all add: ex_ctx_def ex_project_def)
  note t = completion_sets_status_only [OF h1 h2 h3 h4 h5, of None ex_ctx]
  from t h6 have a: "\<not> list_ex (\<lambda>t. fst t = 0) (lv_timers (lv_step ex_lv_props (lv_mount ex_lv_props)
           (LResp (Response ''success'' None (Some [ex_entry ''Build done''])))))" by blast
  from t h8 have b: "\<exists>d'. deployments (projects (apply_effects [UpdateProjectStatus ''p1'' ''success''] ex_ctx) ! 0) = Some [d'] \<and>
         dep_status d' = Some ''success'' \<and> updatedAt d' = updatedAt ex_deployment \<and>
         createdAt d' = createdAt ex_deployment \<and> dep_id d' = dep_id ex_deployment"
    by simp
  from t h1 h2 h3 h5 h6 h7 h8 a b show ?thesis by simp
qed

section \<open>Latched completion\<close>

lemma budget_fetchDeploymentStatus [simp]:
  "md_budget (fetchDeploymentStatus P b cl s) = md_budget s"
  by (simp add: fetchDeploymentStatus_def md_budget_def)

lemma budget_status_settle [simp]: "md_budget (fds_status_settle P b cl r s) = md_budget s"
proof (cases r)
  case (Response st msg d)
  then show ?thesis by (cases d) (simp add: md_budget_def Let_def)
next
  case (Failed m)
  then show ?thesis by (simp add: md_budget_def)
qed

lemma budget_logs_settle: "md_budget (fds_logs_settle P b ns r s) \<le> md_budget s"
  by (cases r) (auto simp: md_budget_def Let_def)

lemma budget_start_settle [simp]: "md_budget (startDeployment_settle P cl r s) = md_budget s"
  by (cases r) auto

lemma budget_pending [simp]: "md_budget (s\<lparr>md_pending := ps\<rparr>) = md_budget s"
  by (simp add: md_budget_def)

lemma budget_settle:
  "md_settle P p r s = Some s' \<Longrightarrow> md_budget s' \<le> md_budget s"
  by (cases "(P, p, r, s)" rule: md_settle.cases) (auto simp: budget_logs_settle)

lemma budget_handle: "md_budget (md_handle P s e) \<le> md_budget s"
proof (cases e)
  case (MTick h)
  then show ?thesis by (simp split: option.splits)
next
  case (MSettle k r)
  then show ?thesis
    using budget_settle[of P "md_pending s ! k" r "s\<lparr>md_pending := take k (md_pending s) @ drop (Suc k) (md_pending s)\<rparr>"]
    by (auto split: option.splits)
next
  case MUnmount
  then show ?thesis by (simp add: md_budget_def)
qed

lemma adaptive_effect_fields [simp]:
  "md_fx (adaptive_effect r s) = md_fx s"
  "projectRefreshed (adaptive_effect r s) = projectRefreshed s"
  "md_pending (adaptive_effect r s) = md_pending s"
  "md_mounted (adaptive_effect r s) = md_mounted s"
  by (auto simp: adaptive_effect_def Let_def split: option.splits)

lemma sync_effect_fields [simp]:
  "md_fx (sync_effect P cl s) = md_fx s"
  "projectRefreshed (sync_effect P cl s) = projectRefreshed s"
  "md_pending (sync_effect P cl s) = md_pending s"
  "md_mounted (sync_effect P cl s) = md_mounted s"
  "md_timers (sync_effect P cl s) = md_timers s"
  "pollingInterval (sync_effect P cl s) = pollingInterval s"
  "md_next (sync_effect P cl s) = md_next s"
  by (simp_all add: sync_effect_def)

lemma md_effects_fields [simp]:
  "md_fx (md_effects P old r) = md_fx r"
  "projectRefreshed (md_effects P old r) = projectRefreshed r"
  "md_pending (md_effects P old r) = md_pending r"
  "md_mounted (md_effects P old r) = md_mounted r"
  by (simp_all add: md_effects_def Let_def)

lemma budget_step: "md_budget (md_step P s e) \<le> md_budget s"
  using budget_handle[of P s e] by (simp add: md_step_def md_budget_def)

lemma budget_run: "md_budget (md_run P s es) \<le> md_budget s"
proof (induction es arbitrary: s)
  case Nil
  then show ?case by simp
next
  case (Cons e es)
  have "md_budget (md_run P (md_step P s e) es) \<le> md_budget (md_step P s e)" by (rule Cons.IH)
  also have "\<dots> \<le> md_budget s" by (rule budget_step)
  finally show ?case by simp
qed


lemma md_effects_same:
  "currentDeploymentId r = currentDeploymentId old \<Longrightarrow> pollCount r = pollCount old \<Longrightarrow>
   length (md_logs r) = length (md_logs old) \<Longrightarrow> md_effects P old r = r"
  by (simp add: md_effects_def)

lemma mono_fetchDeploymentStatus:
  "completions (md_fx (fetchDeploymentStatus P b cl s)) = completions (md_fx s)"
  by (simp add: fetchDeploymentStatus_def)

lemma mono_status_settle:
  "completions (md_fx (fds_status_settle P b cl r s)) = completions (md_fx s)"
proof (cases r)
  case (Response st msg d)
  then show ?thesis by (cases d) (simp add: Let_def)
next
  case (Failed m)
  then show ?thesis by simp
qed

lemma mono_logs_settle:
  "completions (md_fx s) \<le> completions (md_fx (fds_logs_settle P b ns r s))"
  by (cases r) (auto simp: Let_def)

lemma mono_start_settle:
  "completions (md_fx (startDeployment_settle P cl r s)) = completions (md_fx s)"
  by (cases r) (auto simp: mono_fetchDeploymentStatus)

lemma mono_settle:
  "md_settle P p r s = Some s' \<Longrightarrow> completions (md_fx s) \<le> completions (md_fx s')"
  by (cases "(P, p, r, s)" rule: md_settle.cases)
     (auto simp: mono_logs_settle mono_status_settle mono_start_settle)

lemma mono_handle: "completions (md_fx s) \<le> completions (md_fx (md_handle P s e))"
proof (cases e)
  case (MTick h)
  then show ?thesis by (simp add: mono_fetchDeploymentStatus split: option.splits)
next
  case (MSettle k r)
  then show ?thesis
    using mono_settle[of P "md_pending s ! k" r "s\<lparr>md_pending := take k (md_pending s) @ drop (Suc k) (md_pending s)\<rparr>"]
    by (auto split: option.splits)
next
  case MUnmount
  then show ?thesis by simp
qed

lemma mono_step: "completions (md_fx s) \<le> completions (md_fx (md_step P s e))"
  using mono_handle[of s P e] by (simp add: md_step_def)

lemma mono_run: "completions (md_fx s) \<le> completions (md_fx (md_run P s es))"
proof (induction es arbitrary: s)
  case Nil
  then show ?case by simp
next
  case (Cons e es)
  have "completions (md_fx s) \<le> completions (md_fx (md_step P s e))" by (rule mono_step)
  also have "\<dots> \<le> completions (md_fx (md_run P (md_step P s e) es))" by (rule Cons.IH)
  finally show ?case by simp
qed

lemma md_latched_run:
  assumes "projectRefreshed s"
  shows "completions (md_fx (md_run P s es)) = completions (md_fx s)"
proof -
  have "completions (md_fx (md_run P s es)) \<le> md_budget (md_run P s es)"
    by (simp add: md_budget_def)
  also have "\<dots> \<le> md_budget s" by (rule budget_run)
  also have "\<dots> = completions (md_fx s)" using assms by (simp add: md_budget_def)
  finally show ?thesis using mono_run[of s P es] by simp
qed

lemma md_first_marker:
  assumes "\<not> projectRefreshed t" "has_onComplete Q" "k < length (md_pending t)"
    "md_pending t ! k = AwaitLogs b newStatus" "hasDoneLog newLogs"
  shows "md_fx (md_step Q t (MSettle k (LogsR (Response ''success'' msg (Some newLogs))))) =
           md_fx t @ [OnComplete newStatus]"
    and "pollingInterval (md_step Q t (MSettle k (LogsR (Response ''success'' msg (Some newLogs))))) = None"
    and "projectRefreshed (md_step Q t (MSettle k (LogsR (Response ''success'' msg (Some newLogs)))))"
proof -
  let ?t1 = "t\<lparr>md_pending := take k (md_pending t) @ drop (Suc k) (md_pending t)\<rparr>"
  let ?h = "md_handle Q t (MSettle k (LogsR (Response ''success'' msg (Some newLogs))))"
  have h: "?h = fds_return b ((md_stop_polling (?t1\<lparr>projectRefreshed := True, deploymentFinished := True\<rparr>))
               \<lparr>md_fx := md_fx t @ [OnComplete newStatus]\<rparr>)"
    using assms by (simp add: Let_def)
  have "md_effects Q t ?h = ?h"
    unfolding h by (rule md_effects_same) simp_all
  then have st: "md_step Q t (MSettle k (LogsR (Response ''success'' msg (Some newLogs)))) = ?h"
    by (simp add: md_step_def)
  show "md_fx (md_step Q t (MSettle k (LogsR (Response ''success'' msg (Some newLogs))))) =
           md_fx t @ [OnComplete newStatus]"
    unfolding st h by simp
  show "pollingInterval (md_step Q t (MSettle k (LogsR (Response ''success'' msg (Some newLogs))))) = None"
    unfolding st h by simp
  show "projectRefreshed (md_step Q t (MSettle k (LogsR (Response ''success'' msg (Some newLogs)))))"
    unfolding st h by simp
qed

lemma lv_latch_stays: "doneDetectedRef s \<Longrightarrow> doneDetectedRef (lv_step P s e)"
proof (cases e)
  case (LResp r)
  assume "doneDetectedRef s"
  then show ?thesis using LResp by (cases r) (auto simp: Let_def)
qed auto

lemma lv_latch_stays_run: "doneDetectedRef s \<Longrightarrow> doneDetectedRef (lv_run P s es)"
  by (induction es arbitrary: s) (auto simp: lv_latch_stays)

text \<open>
  Claim C2: in a polling session the completion action is performed at most once; when
  the logs of a tick and of later ticks contain a terminal marker, it is performed at
  the first such tick, together with stopping the poller, and never again. For
  LogViewer (which acts only when it was given a project id) the runs start at the
  mount; for DeploymentModal the statement is about every state of the component.
\<close>

theorem completion_latched:
  "completions (lv_fx (lv_run P (lv_mount P) es)) \<le> 1 \<and>
   (truthy (lv_projectId P) \<and> \<not> list_ex lv_marker pre \<and> lv_marker e \<and>
    0 < lv_outstanding (lv_run P (lv_mount P) pre) \<longrightarrow>
      completions (lv_fx (lv_run P (lv_mount P) pre)) = 0 \<and>
      completions (lv_fx (lv_run P (lv_mount P) (pre @ [e]))) = 1 \<and>
      pollingRef (lv_run P (lv_mount P) (pre @ [e])) = None \<and>
      completions (lv_fx (lv_run P (lv_mount P) (pre @ e # post))) = 1) \<and>
   completions (md_fx (md_run Q t ms)) \<le> completions (md_fx t) + (if projectRefreshed t then 0 else 1) \<and>
   (\<not> projectRefreshed t \<and> has_onComplete Q \<and> k < length (md_pending t) \<and>
    md_pending t ! k = AwaitLogs b newStatus \<and> hasDoneLog newLogs \<longrightarrow>
      md_fx (md_step Q t (MSettle k (LogsR (Response ''success'' msg (Some newLogs))))) =
        md_fx t @ [OnComplete newStatus] \<and>
      pollingInterval (md_step Q t (MSettle k (LogsR (Response ''success'' msg (Some newLogs))))) = None \<and>
      completions (md_fx (md_run Q (md_step Q t (MSettle k (LogsR (Response ''success'' msg (Some newLogs))))) ms)) =
        completions (md_fx t) + 1)"
proof -
  have inv: "lv_latched (lv_run P (lv_mount P) xs)" for xs
    by (rule lv_latched_run) (rule lv_latched_mount)
  have a: "completions (lv_fx (lv_run P (lv_mount P) es)) \<le> 1"
    using inv[of es] by (simp add: lv_latched_def split: if_splits)
  have b: "completions (lv_fx (lv_run P (lv_mount P) pre)) = 0 \<and>
      completions (lv_fx (lv_run P (lv_mount P) (pre @ [e]))) = 1 \<and>
      pollingRef (lv_run P (lv_mount P) (pre @ [e])) = None \<and>
      completions (lv_fx (lv_run P (lv_mount P) (pre @ e # post))) = 1"
    if h: "truthy (lv_projectId P)" "\<not> list_ex lv_marker pre" "lv_marker e"
      "0 < lv_outstanding (lv_run P (lv_mount P) pre)"
  proof -
    let ?s = "lv_run P (lv_mount P) pre"
    have m: "\<not> doneDetectedRef (lv_mount P)"
      by (simp add: lv_mount_def lv_init_def)
    have u: "\<not> doneDetectedRef ?s" using lv_unlatched_run[OF m h(2)] .
    have f: "doneDetectedRef (lv_step P ?s e) \<and> pollingRef (lv_step P ?s e) = None"
      using lv_first_marker[OF u h(3) h(4) h(1)] .
    have r1: "lv_run P (lv_mount P) (pre @ [e]) = lv_step P ?s e" by (simp add: lv_run_append)
    have r2: "lv_run P (lv_mount P) (pre @ e # post) = lv_run P (lv_step P ?s e) post"
      by (simp add: lv_run_append)
    have l: "doneDetectedRef (lv_run P (lv_mount P) (pre @ e # post))"
      using lv_latch_stays_run[of "lv_step P ?s e" P post] f r2 by simp
    show ?thesis
      using inv[of pre] inv[of "pre @ [e]"] inv[of "pre @ e # post"] u f r1 l
      by (simp add: lv_latched_def)
  qed
  have c: "completions (md_fx (md_run Q t ms)) \<le> completions (md_fx t) + (if projectRefreshed t then 0 else 1)"
    using budget_run[of Q t ms] by (simp add: md_budget_def split: if_splits)
  have d: "md_fx (md_step Q t (MSettle k (LogsR (Response ''success'' msg (Some newLogs))))) =
        md_fx t @ [OnComplete newStatus] \<and>
      pollingInterval (md_step Q t (MSettle k (LogsR (Response ''success'' msg (Some newLogs))))) = None \<and>
      completions (md_fx (md_run Q (md_step Q t (MSettle k (LogsR (Response ''success'' msg (Some newLogs))))) ms)) =
        completions (md_fx t) + 1"
    if h: "\<not> projectRefreshed t" "has_onComplete Q" "k < length (md_pending t)"
      "md_pending t ! k = AwaitLogs b newStatus" "hasDoneLog newLogs"
    using md_first_marker[OF h, of msg] md_latched_run[of _ Q ms] by simp
  from a b c d show ?thesis by blast
qed

theorem completion_latched_witness:
  "truthy (lv_projectId ex_lv_props) \<and>
   \<not> list_ex lv_marker [LResp (Response ''success'' None (Some [ex_entry ''Building...''])), LTick 0] \<and>
   lv_marker (LResp (Response ''success'' None (Some [ex_entry ''Build done'']))) \<and>
   0 < lv_outstanding (lv_run ex_lv_props (lv_mount ex_lv_props)
         [LResp (Response ''success'' None (Some [ex_entry ''Building...''])), LTick 0]) \<and>
   completions (lv_fx (lv_run ex_lv_props (lv_mount ex_lv_props)
         [LResp (Response ''success'' None (Some [ex_entry ''Building...''])), LTick 0])) = 0 \<and>
   completions (lv_fx (lv_run ex_lv_props (lv_mount ex_lv_props)
         ([LResp (Response ''success'' None (Some [ex_entry ''Building...''])), LTick 0] @
          [LResp (Response ''success'' None (Some [ex_entry ''Build done'']))]))) = 1 \<and>
   completions (lv_fx (lv_run ex_lv_props (lv_mount ex_lv_props)
         ([LResp (Response ''success'' None (Some [ex_entry ''Building...''])), LTick 0] @
          LResp (Response ''success'' None (Some [ex_entry ''Build done''])) #
          [LRerun, LResp (Response ''success'' None (Some [ex_entry ''Build done''])), LTick 1,
           LResp (Response ''success'' None (Some [ex_entry ''Build done'']))]))) = 1 \<and>
   \<not> projectRefreshed ex_modal \<and> has_onComplete ex_md_props \<and> 0 < length (md_pending ex_modal) \<and>
   md_pending ex_modal ! 0 = AwaitLogs False ''running'' \<and> hasDoneLog [ex_entry ''Build done''] \<and>
   md_fx (md_step ex_md_props ex_modal
            (MSettle 0 (LogsR (Response ''success'' None (Some [ex_entry ''Build done'']))))) =
     md_fx ex_modal @ [OnComplete ''running''] \<and>
   completions (md_fx (md_run ex_md_props
       (md_step ex_md_props ex_modal
            (MSettle 0 (LogsR (Response ''success'' None (Some [ex_entry ''Build done''])))))
       [MTick 1, MSettle 0 (LogsR (Response ''success'' None (Some [ex_entry ''Build done''])))])) =
     completions (md_fx ex_modal) + 1"
proof -
  have h1: "truthy (lv_projectId ex_lv_props)" by (simp add: ex_lv_props_def)
  have h2: "\<not> list_ex lv_marker [LResp (Response ''success'' None (Some [ex_entry ''Building...''])), LTick 0]"
    by code_simp
  have h3: "lv_marker (LResp (Response ''success'' None (Some [ex_entry ''Build done''])))"
    by code_simp
  have h4: "0 < lv_outstanding (lv_run ex_lv_props (lv_mount ex_lv_props)
         [LResp (Response ''success'' None (Some [ex_entry ''Building...''])), LTick 0])"
    by code_simp
  have h5: "\<not> projectRefreshed ex_modal" "has_onComplete ex_md_props" "0 < length (md_pending ex_modal)"
    "md_pending ex_modal ! 0 = AwaitLogs False ''running''"
    by (simp_all add: ex_modal_def ex_md_props_def)
  have h6: "hasDoneLog [ex_entry ''Build done'']" by code_simp
  from completion_latched[of ex_lv_props "[]"
      "[LResp (Response ''success'' None (Some [ex_entry ''Building...''])), LTick 0]"
      "LResp (Response ''success'' None (Some [ex_entry ''Build done'']))"
      "[LRerun, LResp (Response ''success'' None (Some [ex_entry ''Build done''])), LTick 1,
           LResp (Response ''success'' None (Some [ex_entry ''Build done'']))]"
      ex_md_props ex_modal
      "[MTick 1, MSettle 0 (LogsR (Response ''success'' None (Some [ex_entry ''Build done''])))]"
      0 False "''running''" "[ex_entry ''Build done'']" None]
  show ?thesis using h1 h2 h3 h4 h5 h6 by blast
qed

section \<open>Outstanding requests\<close>

text \<open>
  Claim C8 as stated: at most one tick fetch of a session is outstanding at any time,
  a tick being skipped while an earlier fetch has not settled. LogViewer fetches at
  its mount; when its timer fires before that request has settled, two requests are
  outstanding.
\<close>

theorem overlapping_fetches_counterexample:
  "lv_outstanding (lv_mount ex_lv_props) = 1 \<and>
   lv_outstanding (lv_run ex_lv_props (lv_mount ex_lv_props) [LTick 0]) = 2 \<and>
   lv_fx (lv_run ex_lv_props (lv_mount ex_lv_props) [LTick 0]) =
     [Fetch (GET_logs (Some ''d1'')), Fetch (GET_logs (Some ''d1''))]"
  by code_simp

lemma md_tick_sends:
  assumes "find (\<lambda>x. fst x = h) (md_timers t) = Some tm" "pollingInterval t \<noteq> None"
  shows "md_step Q t (MTick h) =
     t\<lparr>md_pending := md_pending t @ [AwaitStatus False (snd (snd tm))],
       md_fx := md_fx t @ [Fetch (GET_status (md_projectId Q))]\<rparr>"
proof -
  have h: "md_handle Q t (MTick h) =
     t\<lparr>md_pending := md_pending t @ [AwaitStatus False (snd (snd tm))],
       md_fx := md_fx t @ [Fetch (GET_status (md_projectId Q))]\<rparr>"
    using assms by (auto simp: fetchDeploymentStatus_def)
  show ?thesis unfolding md_step_def h by (rule md_effects_same) simp_all
qed

text \<open>
  Claim C8, amended: every tick of a registered timer sends its request, whether or not
  earlier requests of the session have settled; no tick is skipped. LogViewer's
  \<^verbatim>\<open>fetchLogs\<close> has no guard, and DeploymentModal's \<^verbatim>\<open>fetchDeploymentStatus\<close> only
  checks that its interval has not been cleared.
\<close>

theorem tick_always_fetches:
  "(list_ex (\<lambda>x. fst x = h) (lv_timers s) \<longrightarrow>
      lv_outstanding (lv_step P s (LTick h)) = lv_outstanding s + 1 \<and>
      lv_fx (lv_step P s (LTick h)) = lv_fx s @ [Fetch (GET_logs (lv_deploymentId P))]) \<and>
   (find (\<lambda>x. fst x = h') (md_timers t) = Some tm \<and> pollingInterval t \<noteq> None \<longrightarrow>
      md_pending (md_step Q t (MTick h')) = md_pending t @ [AwaitStatus False (snd (snd tm))] \<and>
      md_fx (md_step Q t (MTick h')) = md_fx t @ [Fetch (GET_status (md_projectId Q))])"
  using md_tick_sends[of h' t tm Q] by simp

theorem tick_always_fetches_witness:
  "list_ex (\<lambda>x. fst x = 0) (lv_timers (lv_mount ex_lv_props)) \<and>
   lv_outstanding (lv_mount ex_lv_props) = 1 \<and>
   lv_outstanding (lv_step ex_lv_props (lv_mount ex_lv_props) (LTick 0)) = 2 \<and>
   find (\<lambda>x. fst x = 1) (md_timers ex_modal) = Some (1, 8000, ex_closure) \<and>
   pollingInterval ex_modal \<noteq> None \<and>
   md_pending (md_step ex_md_props ex_modal (MTick 1)) =
     [AwaitLogs False ''running'', AwaitStatus False ex_closure] \<and>
   md_fx (md_step ex_md_props ex_modal (MTick 1)) = [Fetch (GET_status (Some ''p1''))]"
proof -
  have h1: "list_ex (\<lambda>x. fst x = 0) (lv_timers (lv_mount ex_lv_props))"
    by (simp add: lv_mount_def lv_effect_def lv_init_def ex_lv_props_def Let_def)
  have h2: "lv_outstanding (lv_mount ex_lv_props) = 1"
    by (simp add: lv_mount_def lv_effect_def lv_init_def ex_lv_props_def Let_def)
  have h3: "find (\<lambda>x. fst x = 1) (md_timers ex_modal) = Some (1, 8000, ex_closure)"
    by (simp add: ex_modal_def)
  have h4: "pollingInterval ex_modal \<noteq> None" by (simp add: ex_modal_def)
  have h5: "md_pending ex_modal = [AwaitLogs False ''running'']" "md_fx ex_modal = []"
    "md_projectId ex_md_props = Some ''p1''"
    by (simp_all add: ex_modal_def ex_md_props_def)
  from tick_always_fetches[of 0 "lv_mount ex_lv_props" ex_lv_props 1 ex_modal "(1, 8000, ex_closure)" ex_md_props]
  show ?thesis using h1 h2 h3 h4 h5 by simp
qed

section \<open>Errors during a tick\<close>

lemma md_stop_polling_timers:
  "pollingInterval s = Some h \<Longrightarrow> \<not> list_ex (\<lambda>x. fst x = h) (md_timers (md_stop_polling s))"
  by (auto simp: md_stop_polling_def clearInterval_def list_ex_iff)

lemma fds_catch_timers:
  "pollingInterval s = Some h \<Longrightarrow> \<not> list_ex (\<lambda>x. fst x = h) (md_timers (fds_catch b m s))"
  using md_stop_polling_timers[of "s\<lparr>md_error := Some (or_default (Some m) ''Failed to get deployment status'')\<rparr>" h]
  by (simp add: fds_catch_def)

lemma md_error_step:
  assumes "k < length (md_pending t)"
    and "md_pending t ! k = AwaitStatus b cl \<and> r = StatusR (Failed m) \<or>
         md_pending t ! k = AwaitLogs b ns \<and> r = LogsR (Failed m)"
  shows "md_step Q t (MSettle k r) =
     fds_catch b m (t\<lparr>md_pending := take k (md_pending t) @ drop (Suc k) (md_pending t)\<rparr>)"
proof -
  have h: "md_handle Q t (MSettle k r) =
     fds_catch b m (t\<lparr>md_pending := take k (md_pending t) @ drop (Suc k) (md_pending t)\<rparr>)"
    using assms by auto
  show ?thesis unfolding md_step_def h by (rule md_effects_same) simp_all
qed

text \<open>
  In the modal a failed status or logs request ends in the \<^verbatim>\<open>catch\<close> block, which
  clears the interval ("Clear interval on error").
\<close>

lemma md_error_clears_interval:
  assumes "k < length (md_pending t)"
    and "md_pending t ! k = AwaitStatus b cl \<and> r = StatusR (Failed m) \<or>
         md_pending t ! k = AwaitLogs b ns \<and> r = LogsR (Failed m)"
  shows "pollingInterval (md_step Q t (MSettle k r)) = None"
    and "md_error (md_step Q t (MSettle k r)) = Some (or_default (Some m) ''Failed to get deployment status'')"
    and "pollingInterval t = Some h \<Longrightarrow> \<not> list_ex (\<lambda>x. fst x = h) (md_timers (md_step Q t (MSettle k r)))"
  unfolding md_error_step[OF assms]
  by (auto simp: fds_catch_def fds_return_def md_stop_polling_def clearInterval_def list_ex_iff
      split: option.splits)

lemma lv_error_step:
  assumes "0 < lv_outstanding s"
  shows "lv_step P s (LResp (Failed m)) =
     s\<lparr>lv_outstanding := lv_outstanding s - 1,
       lv_error := Some (''Failed to fetch logs: '' @ m), lv_isLoading := False\<rparr>"
  using assms by (simp add: fetchLogs_catch_def)

text \<open>
  Claim C6: on a transport error during a tick's fetch the scheduled tick lifecycle of
  the session continues, so the fetch is retried at the next scheduled tick; the
  poller is not torn down by the error. In LogViewer a failed log request records the
  error, sends nothing by itself and leaves the timer, the ref that holds it and the
  mount as they were, so that the next tick of the timer sends the request again; the
  same holds for a response with another status than "success". DeploymentModal has
  no tick: from its mount on it registers no timer and sends no status or logs
  request.
\<close>

theorem poller_survives_fetch_error:
  "(0 < lv_outstanding s \<longrightarrow>
      lv_error (lv_step P s (LResp (Failed m))) = Some (''Failed to fetch logs: '' @ m)) \<and>
   (\<not> is_success r \<longrightarrow>
      lv_timers (lv_step P s (LResp r)) = lv_timers s \<and>
      pollingRef (lv_step P s (LResp r)) = pollingRef s \<and>
      lv_mounted (lv_step P s (LResp r)) = lv_mounted s \<and>
      lv_fx (lv_step P s (LResp r)) = lv_fx s \<and>
      (list_ex (\<lambda>x. fst x = h) (lv_timers s) \<longrightarrow>
         lv_fx (lv_step P (lv_step P s (LResp r)) (LTick h)) =
           lv_fx s @ [Fetch (GET_logs (lv_deploymentId P))])) \<and>
   (list_ex (\<lambda>x. fst x = h') (lv_timers (lv_run P (lv_mount P) es)) \<longrightarrow>
      list_ex (\<lambda>x. fst x = h') (lv_timers (lv_run P (lv_mount P) (es @ [LResp (Failed m)])))) \<and>
   md_timers (md_run Q (md_mount Q) ms) = [] \<and>
   list_all is_deploy_request (md_fx (md_run Q (md_mount Q) ms))"
proof -
  have a: "lv_error (lv_step P s (LResp (Failed m))) = Some (''Failed to fetch logs: '' @ m)"
    if "0 < lv_outstanding s"
    using lv_error_step[OF that] by simp
  have b: "lv_timers (lv_step P s (LResp r)) = lv_timers s \<and>
      pollingRef (lv_step P s (LResp r)) = pollingRef s \<and>
      lv_mounted (lv_step P s (LResp r)) = lv_mounted s \<and>
      lv_fx (lv_step P s (LResp r)) = lv_fx s" if "\<not> is_success r"
    using that by (cases r) auto
  have c: "list_ex (\<lambda>x. fst x = h') (lv_timers (lv_run P (lv_mount P) (es @ [LResp (Failed m)])))"
    if "list_ex (\<lambda>x. fst x = h') (lv_timers (lv_run P (lv_mount P) es))"
    using that by (simp add: lv_run_append)
  from a b c md_never_polls[of Q ms] show ?thesis by simp
qed

theorem poller_survives_fetch_error_witness:
  "0 < lv_outstanding (lv_mount ex_lv_props) \<and>
   \<not> is_success (Failed ''Network Error'' :: log_entry list option http) \<and>
   list_ex (\<lambda>x. fst x = 0) (lv_timers (lv_mount ex_lv_props)) \<and>
   lv_error (lv_step ex_lv_props (lv_mount ex_lv_props) (LResp (Failed ''Network Error''))) =
     Some ''Failed to fetch logs: Network Error'' \<and>
   lv_timers (lv_step ex_lv_props (lv_mount ex_lv_props) (LResp (Failed ''Network Error''))) = [(0, 5000)] \<and>
   pollingRef (lv_step ex_lv_props (lv_mount ex_lv_props) (LResp (Failed ''Network Error''))) = Some 0 \<and>
   lv_fx (lv_step ex_lv_props (lv_mount ex_lv_props) (LResp (Failed ''Network Error''))) =
     [Fetch (GET_logs (Some ''d1''))] \<and>
   lv_fx (lv_step ex_lv_props (lv_step ex_lv_props (lv_mount ex_lv_props) (LResp (Failed ''Network Error''))) (LTick 0)) =
     [Fetch (GET_logs (Some ''d1'')), Fetch (GET_logs (Some ''d1''))] \<and>
   list_ex (\<lambda>x. fst x = 0) (lv_timers (lv_run ex_lv_props (lv_mount ex_lv_props) ([] @ [LResp (Failed ''Network Error'')])))"
proof -
  have h0: "0 < lv_outstanding (lv_mount ex_lv_props)"
    by (simp add: lv_mount_def lv_effect_def lv_init_def ex_lv_props_def Let_def)
  have h1: "\<not> is_success (Failed ''Network Error'' :: log_entry list option http)" by simp
  have h2: "lv_timers (lv_mount ex_lv_props) = [(0, 5000)]" "pollingRef (lv_mount ex_lv_props) = Some 0"
    "lv_fx (lv_mount ex_lv_props) = [Fetch (GET_logs (Some ''d1''))]"
    "lv_deploymentId ex_lv_props = Some ''d1''"
    by (simp_all add: lv_mount_def lv_effect_def lv_init_def ex_lv_props_def Let_def)
  have h3: "list_ex (\<lambda>x. fst x = 0) (lv_timers (lv_mount ex_lv_props))" by (simp add: h2)
  have h4: "list_ex (\<lambda>x. fst x = 0) (lv_timers (lv_run ex_lv_props (lv_mount ex_lv_props) []))"
    using h3 by simp
  from poller_survives_fetch_error[of "lv_mount ex_lv_props" ex_lv_props "''Network Error''"
      "Failed ''Network Error''" 0 0 "[]" ex_md_props "[]"]
  show ?thesis using h0 h1 h2 h3 h4 by simp
qed

section \<open>The polling period\<close>

lemma adaptive_effect_timers:
  "x \<in> set (md_timers (adaptive_effect r s)) \<Longrightarrow> x \<in> set (md_timers s) \<or> fst (snd x) = 8000"
  by (auto simp: adaptive_effect_def Let_def clearInterval_def split: option.splits if_splits)

lemma md_effects_timers:
  "x \<in> set (md_timers (md_effects Q old r)) \<Longrightarrow> x \<in> set (md_timers r) \<or> fst (snd x) = 8000"
  using adaptive_effect_timers[of x r "sync_effect Q (closure_of r) r"] adaptive_effect_timers[of x r r]
  by (auto simp: md_effects_def Let_def split: if_splits)

lemma md_stop_polling_subset: "set (md_timers (md_stop_polling s)) \<subseteq> set (md_timers s)"
  by (auto simp: md_stop_polling_def clearInterval_def split: option.splits)

lemma fetchDeploymentStatus_timers [simp]:
  "md_timers (fetchDeploymentStatus P b cl s) = md_timers s"
  by (simp add: fetchDeploymentStatus_def)

lemma fds_catch_subset: "set (md_timers (fds_catch b m s)) \<subseteq> set (md_timers s)"
  using md_stop_polling_subset[of "s\<lparr>md_error := Some (or_default (Some m) ''Failed to get deployment status'')\<rparr>"]
  by (simp add: fds_catch_def)

lemma status_settle_subset: "set (md_timers (fds_status_settle P b cl r s)) \<subseteq> set (md_timers s)"
proof (cases r)
  case (Response st msg d)
  then show ?thesis using fds_catch_subset by (cases d) (auto simp: Let_def)
next
  case (Failed m)
  then show ?thesis using fds_catch_subset by simp
qed

lemma logs_settle_subset: "set (md_timers (fds_logs_settle P b ns r s)) \<subseteq> set (md_timers s)"
proof (cases r)
  case (Response st msg d)
  have "set (md_timers (md_stop_polling (s\<lparr>projectRefreshed := True, deploymentFinished := True\<rparr>)))
      \<subseteq> set (md_timers s)"
    using md_stop_polling_subset[of "s\<lparr>projectRefreshed := True, deploymentFinished := True\<rparr>"] by simp
  then show ?thesis using Response fds_catch_subset[of b _ s] by (auto simp: Let_def)
next
  case (Failed m)
  then show ?thesis using fds_catch_subset by simp
qed

lemma start_settle_subset: "set (md_timers (startDeployment_settle P cl r s)) \<subseteq> set (md_timers s)"
  by (cases r) auto

lemma settle_subset:
  "md_settle P p r s = Some s' \<Longrightarrow> set (md_timers s') \<subseteq> set (md_timers s)"
proof (cases "(P, p, r, s)" rule: md_settle.cases)
  case (1 P' cl' r' s'')
  assume "md_settle P p r s = Some s'"
  then show ?thesis using 1 start_settle_subset[of P cl' r' s] by simp
next
  case (2 P' b' cl' r' s'')
  assume "md_settle P p r s = Some s'"
  then show ?thesis using 2 status_settle_subset[of P b' cl' r' s] by simp
next
  case (3 P' b' ns' r' s'')
  assume "md_settle P p r s = Some s'"
  then show ?thesis using 3 logs_settle_subset[of P b' ns' r' s] by simp
qed auto

lemma handle_subset: "set (md_timers (md_handle P s e)) \<subseteq> set (md_timers s)"
proof (cases e)
  case (MTick h)
  then show ?thesis by (simp split: option.splits)
next
  case (MSettle k r)
  then show ?thesis
    using settle_subset[of P "md_pending s ! k" r "s\<lparr>md_pending := take k (md_pending s) @ drop (Suc k) (md_pending s)\<rparr>"]
    by (auto split: option.splits)
next
  case MUnmount
  then show ?thesis using md_stop_polling_subset[of s] by auto
qed

lemma step_timers:
  "x \<in> set (md_timers (md_step Q t e)) \<Longrightarrow> x \<in> set (md_timers t) \<or> fst (snd x) = 8000"
  using md_effects_timers[of x Q t "md_handle Q t e"] handle_subset[of Q t e]
  by (auto simp: md_step_def)

lemma lv_timers_5000: "x \<in> set (lv_timers (lv_run P (lv_mount P) es)) \<Longrightarrow> snd x = 5000"
  using lv_wf_run[OF lv_wf_mount, where P = P and es = es] by (auto simp: lv_wf_def split: option.splits)

text \<open>
  Claim C4, amended: LogViewer polls with the fixed period of 5000 ms. In
  DeploymentModal the effect that adjusts the polling frequency, when it runs with
  \<^verbatim>\<open>pollCount > 5\<close>, a log count equal to the last recorded one and a live timer,
  replaces that timer by one with a period of 8000 ms; otherwise it leaves the timer
  as it is; it always records the current log count. No step of the modal registers a
  timer with another period: the period is not reset when new log content appears.
\<close>

theorem polling_periods:
  "(\<forall>x \<in> set (lv_timers (lv_run P (lv_mount P) es)). snd x = 5000) \<and>
   (5 < pollCount r \<and> length (md_logs r) = lastLogCount r \<and> pollingInterval s = Some h \<longrightarrow>
      md_timers (adaptive_effect r s) = clearInterval h (md_timers s) @ [(md_next s, 8000, closure_of r)] \<and>
      pollingInterval (adaptive_effect r s) = Some (md_next s)) \<and>
   (\<not> (5 < pollCount r \<and> length (md_logs r) = lastLogCount r) \<or> pollingInterval s = None \<longrightarrow>
      md_timers (adaptive_effect r s) = md_timers s \<and>
      pollingInterval (adaptive_effect r s) = pollingInterval s) \<and>
   lastLogCount (adaptive_effect r s) = length (md_logs r) \<and>
   (\<forall>x \<in> set (md_timers (md_step Q t e)). x \<in> set (md_timers t) \<or> fst (snd x) = 8000)"
  using lv_timers_5000[of _ P es] step_timers[of _ Q t e]
  by (auto simp: adaptive_effect_def Let_def)

theorem polling_periods_witness:
  "lv_timers (lv_run ex_lv_props (lv_mount ex_lv_props) [LTick 0]) = [(0, 5000)] \<and>
   snd (hd (lv_timers (lv_run ex_lv_props (lv_mount ex_lv_props) [LTick 0]))) = 5000 \<and>
   5 < pollCount ex_modal \<and> length (md_logs ex_modal) = lastLogCount ex_modal \<and>
   pollingInterval ex_modal = Some 1 \<and>
   md_timers (adaptive_effect ex_modal ex_modal) = [(2, 8000, ex_closure)] \<and>
   pollingInterval (adaptive_effect ex_modal ex_modal) = Some 2 \<and>
   \<not> 5 < pollCount (md_init ex_md_props) \<and>
   md_timers (adaptive_effect (md_init ex_md_props) ex_modal) = [(1, 8000, ex_closure)] \<and>
   pollingInterval (adaptive_effect (md_init ex_md_props) ex_modal) = Some 1 \<and>
   lastLogCount (adaptive_effect ex_modal ex_modal) = 1 \<and>
   md_timers (md_step ex_md_props ex_modal (MTick 1)) = [(1, 8000, ex_closure)] \<and>
   fst (snd (hd (md_timers (md_step ex_md_props ex_modal (MTick 1))))) = 8000"
proof -
  have h1: "lv_timers (lv_run ex_lv_props (lv_mount ex_lv_props) [LTick 0]) = [(0, 5000)]"
    by (simp add: lv_mount_def lv_effect_def lv_init_def ex_lv_props_def Let_def)
  have h2: "5 < pollCount ex_modal" "length (md_logs ex_modal) = lastLogCount ex_modal"
    "pollingInterval ex_modal = Some 1" "md_timers ex_modal = [(1, 8000, ex_closure)]"
    "md_next ex_modal = 2" "closure_of ex_modal = ex_closure" "md_logs ex_modal = [ex_entry ''Building...'']"
    by (simp_all add: ex_modal_def closure_of_def ex_closure_def)
  have h3: "\<not> 5 < pollCount (md_init ex_md_props)" by (simp add: md_init_def)
  have h4: "md_timers (md_step ex_md_props ex_modal (MTick 1)) = [(1, 8000, ex_closure)]"
    by (simp add: md_step_def md_effects_def fetchDeploymentStatus_def ex_modal_def)
  note a = polling_periods[of ex_lv_props "[LTick 0]" ex_modal ex_modal 1 ex_md_props ex_modal "MTick 1"]
  note b = polling_periods[of ex_lv_props "[LTick 0]" "md_init ex_md_props" ex_modal 1 ex_md_props ex_modal "MTick 1"]
  from a b h1 h2 h3 h4 show ?thesis by (simp add: clearInterval_def)
qed

text \<open>
  Claim C4 as stated: after a threshold of consecutive ticks with unchanged log count
  the tick interval rises above the base interval, and the first tick with new log
  content resets it. A LogViewer session with seven ticks that all see no logs still
  has its 5000 ms timer; a modal slowed down to 8000 ms that receives a longer log
  list keeps the 8000 ms timer.
\<close>

theorem polling_interval_not_adaptive_counterexample:
  "lv_timers (lv_mount ex_lv_props) = [(0, 5000)] \<and>
   lv_timers (lv_run ex_lv_props (lv_mount ex_lv_props)
     [LResp (Response ''success'' None (Some [])),
      LTick 0, LResp (Response ''success'' None (Some [])),
      LTick 0, LResp (Response ''success'' None (Some [])),
      LTick 0, LResp (Response ''success'' None (Some [])),
      LTick 0, LResp (Response ''success'' None (Some [])),
      LTick 0, LResp (Response ''success'' None (Some [])),
      LTick 0, LResp (Response ''success'' None (Some [])),
      LTick 0, LResp (Response ''success'' None (Some []))]) = [(0, 5000)] \<and>
   md_timers ex_modal = [(1, 8000, ex_closure)] \<and>
   length (md_logs ex_modal) = 1 \<and>
   length (md_logs (md_step ex_md_props ex_modal
     (MSettle 0 (LogsR (Response ''success'' None
        (Some [ex_entry ''Building...'', ex_entry ''Installing packages''])))))) = 2 \<and>
   md_timers (md_step ex_md_props ex_modal
     (MSettle 0 (LogsR (Response ''success'' None
        (Some [ex_entry ''Building...'', ex_entry ''Installing packages'']))))) = [(1, 8000, ex_closure)]"
  by code_simp

section \<open>Fetches after the poller has stopped\<close>

text \<open>
  A call of \<^verbatim>\<open>fetchDeploymentStatus\<close> made after the interval was cleared returns at
  its guard and sends nothing.
\<close>

lemma fetchDeploymentStatus_guard:
  "pollingInterval s = None \<Longrightarrow> fetchDeploymentStatus P b cl s = fds_return b s"
  by (simp add: fetchDeploymentStatus_def)

text \<open>
  LogViewer: once the timer is cleared, nothing is fetched as long as the effect does
  not run again; after the unmount nothing is fetched at all.
\<close>

lemma lv_stopped_quiet:
  assumes "pollingRef (lv_run P (lv_mount P) es0) = None"
    and "LRerun \<notin> set es \<or> \<not> lv_mounted (lv_run P (lv_mount P) es0)"
  shows "fetches (lv_fx (lv_run P (lv_run P (lv_mount P) es0) es)) =
         fetches (lv_fx (lv_run P (lv_mount P) es0))"
proof -
  have "lv_wf (lv_run P (lv_mount P) es0)"
    by (rule lv_wf_run) (rule lv_wf_mount)
  then have "lv_timers (lv_run P (lv_mount P) es0) = []"
    using assms(1) by (simp add: lv_wf_def)
  then show ?thesis using assms(2) by (rule lv_quiet_run)
qed

text \<open>
  Claim C5: once a session has reached Stopped, by terminal detection, unmount or
  error, no further tick fetch is performed. After LogViewer has detected the terminal
  state its timer is cleared; when the effect then runs again with a changed
  dependency, it fetches at once and registers a new timer, whose ticks fetch too. The
  latch is set, so nothing stops this poller before the unmount.
\<close>

theorem logviewer_fetches_after_terminal_stop:
  "pollingRef (lv_run ex_lv_props (lv_mount ex_lv_props)
      [LResp (Response ''success'' None (Some [ex_entry ''Build done'']))]) = None \<and>
   lv_timers (lv_run ex_lv_props (lv_mount ex_lv_props)
      [LResp (Response ''success'' None (Some [ex_entry ''Build done'']))]) = [] \<and>
   fetches (lv_fx (lv_run ex_lv_props (lv_mount ex_lv_props)
      [LResp (Response ''success'' None (Some [ex_entry ''Build done'']))])) = 1 \<and>
   lv_timers (lv_run ex_lv_props (lv_mount ex_lv_props)
      [LResp (Response ''success'' None (Some [ex_entry ''Build done''])), LRerun]) = [(1, 5000)] \<and>
   fetches (lv_fx (lv_run ex_lv_props (lv_mount ex_lv_props)
      [LResp (Response ''success'' None (Some [ex_entry ''Build done''])), LRerun,
       LResp (Response ''success'' None (Some [ex_entry ''Build done''])), LTick 1, LTick 1])) = 4"
  by code_simp

end
